theory Spec2Isabelle
  imports Complex_Main "HOL-Library.Sublist"
begin

section \<open>Strings and numbers of the host language\<close>

text \<open>
  The program is TypeScript. A string is modelled as a list of 8-bit characters (code
  units below 256), a number that is not NaN as a rational, and NaN as the absence of a
  value (\<open>None\<close>) at the places where the source tests \<open>isNaN\<close>. Arithmetic is
  exact: the rounding of IEEE doubles and their overflow to Infinity are not part of
  the model.
\<close>

type_synonym number = rat

text \<open>A promise either resolves with a value or rejects (an exception is thrown).\<close>

datatype 'a outcome = Returns 'a | Throws

definition charCode :: "char \<Rightarrow> nat" where
  "charCode c = of_char c"

text \<open>White space and line terminators, as \<open>String.prototype.trim\<close> and the number
  parsers skip them (tab, LF, VT, FF, CR, space, no-break space).\<close>

definition isWhiteSpace :: "char \<Rightarrow> bool" where
  "isWhiteSpace c = (let n = charCode c in (9 \<le> n \<and> n \<le> 13) \<or> n = 32 \<or> n = 160)"

definition trimStart :: "string \<Rightarrow> string" where
  "trimStart s = dropWhile isWhiteSpace s"

definition trim :: "string \<Rightarrow> string" where
  "trim s = rev (dropWhile isWhiteSpace (rev (dropWhile isWhiteSpace s)))"

definition lowerChar :: "char \<Rightarrow> char" where
  "lowerChar c =
     (let n = charCode c in
      if 65 \<le> n \<and> n \<le> 90 then char_of (n + 32)
      else if 192 \<le> n \<and> n \<le> 222 \<and> n \<noteq> 215 then char_of (n + 32)
      else c)"

definition toLowerCase :: "string \<Rightarrow> string" where
  "toLowerCase s = map lowerChar s"

text \<open>\<open>s.replace(/,/g, '')\<close>\<close>

definition removeCommas :: "string \<Rightarrow> string" where
  "removeCommas s = filter (\<lambda>c. c \<noteq> CHR '','') s"

text \<open>\<open>s.includes(sub)\<close>\<close>

fun str_includes :: "string \<Rightarrow> string \<Rightarrow> bool" where
  "str_includes [] sub = (sub = [])"
| "str_includes (c # cs) sub = (prefix sub (c # cs) \<or> str_includes cs sub)"

text \<open>\<open>s.split(' ')[0]\<close>: the text before the first space (all of it when there is none).\<close>

definition firstToken :: "string \<Rightarrow> string" where
  "firstToken s = takeWhile (\<lambda>c. c \<noteq> CHR '' '') s"

definition isDigit :: "char \<Rightarrow> bool" where
  "isDigit c = (let n = charCode c in 48 \<le> n \<and> n \<le> 57)"

definition digitsValue :: "string \<Rightarrow> nat" where
  "digitsValue ds = foldl (\<lambda>a c. 10 * a + (charCode c - 48)) 0 ds"

text \<open>An optional sign in front of a numeric literal: the sign read and the rest.\<close>

definition readSign :: "string \<Rightarrow> bool \<times> string" where
  "readSign s =
     (case s of
        [] \<Rightarrow> (False, [])
      | c # r \<Rightarrow> if c = CHR ''-'' then (True, r) else if c = CHR ''+'' then (False, r) else (False, s))"

text \<open>\<open>parseInt(s, 10)\<close>: leading white space is skipped, then an optional sign and the
  longest run of decimal digits; NaN (\<open>None\<close>) when there is no digit.\<close>

definition parseInt :: "string \<Rightarrow> int option" where
  "parseInt s =
     (let (neg, r) = readSign (trimStart s);
          ds = takeWhile isDigit r
      in if ds = [] then None
         else Some (if neg then - int (digitsValue ds) else int (digitsValue ds)))"

text \<open>The exponent part of a decimal literal, \<open>e\<close> or \<open>E\<close>, an optional sign and at
  least one digit; 0 when the text does not start with a complete exponent part.\<close>

definition readExponent :: "string \<Rightarrow> int" where
  "readExponent s =
     (case s of
        [] \<Rightarrow> 0
      | c # r \<Rightarrow>
          if c = CHR ''e'' \<or> c = CHR ''E'' then
            (let (neg, r') = readSign r;
                 ds = takeWhile isDigit r'
             in if ds = [] then 0
                else if neg then - int (digitsValue ds) else int (digitsValue ds))
          else 0)"

definition scale10 :: "number \<Rightarrow> int \<Rightarrow> number" where
  "scale10 x e = (if 0 \<le> e then x * 10 ^ nat e else x / 10 ^ nat (- e))"

text \<open>
  \<open>parseFloat(s)\<close>: leading white space is skipped, then the longest prefix that is a
  decimal literal is read: an optional sign, digits with an optional fraction (or a
  fraction alone), and an optional exponent part. NaN (\<open>None\<close>) when neither the integer
  part nor the fraction has a digit. The literal \<open>Infinity\<close> is left out: it starts with
  an upper-case letter, and the only caller lower-cases the text first.
\<close>

definition parseFloat :: "string \<Rightarrow> number option" where
  "parseFloat s =
     (let (neg, r) = readSign (trimStart s);
          ip = takeWhile isDigit r;
          r1 = dropWhile isDigit r;
          hasDot = (case r1 of [] \<Rightarrow> False | c # _ \<Rightarrow> c = CHR ''.'');
          fp = (if hasDot then takeWhile isDigit (tl r1) else []);
          r2 = (if hasDot then dropWhile isDigit (tl r1) else r1)
      in if ip = [] \<and> fp = [] then None
         else
           (let m = of_nat (digitsValue ip) + of_nat (digitsValue fp) / 10 ^ length fp;
                v = scale10 m (readExponent r2)
            in Some (if neg then - v else v)))"

text \<open>\<open>Math.round\<close>: the nearest integer, a tie going up.\<close>

definition Math_round :: "number \<Rightarrow> number" where
  "Math_round x = of_int \<lfloor>x + 1 / 2\<rfloor>"

section \<open>main.ts: parsing the follower count\<close>

definition cleanedText :: "string \<Rightarrow> string" where
  "cleanedText text = removeCommas (trim (toLowerCase text))"

definition parseFollowerCount :: "string \<Rightarrow> number option" where
  "parseFollowerCount text =
     (if text = [] then None
      else
        (let cleaned = cleanedText text in
         case parseFloat cleaned of
           None \<Rightarrow> None
         | Some num \<Rightarrow>
             if str_includes cleaned ''k'' then Some (Math_round (num * 1000))
             else if str_includes cleaned ''m'' then Some (Math_round (num * 1000000))
             else Some num))"

section \<open>config.ts: accounts\<close>

record AccountConfig =
  enabled :: bool
  username :: string
  password :: string
  aiPromptHint :: "string option"
  actionDelaySeconds :: "(number \<times> number) option"
  targets :: "string list"

section \<open>bot.ts: the comment task\<close>

datatype InteractionResult = SUCCESS | SKIPPED | FAILED

text \<open>
  What the task asks of the page, the comment generator and the interaction log, in the
  order of the calls. A call is recorded when it is made, whatever it answers.
\<close>

datatype action =
    Goto string
  | EnumeratePosts
  | Screenshot string
  | OpenPost
  | ExtractCaption
  | ExtractMedia
  | GenerateComment string string "string option" "string option" "string option"
  | TypeComment string
  | ClickPost
  | AppendLog string

text \<open>The fields of \<open>InstagramBot\<close> that the task reads and writes.\<close>

record bot_state =
  config :: AccountConfig
  isCapturingVideo :: bool
  capturedVideoUrl :: "string option"

text \<open>A network response, as the \<open>response\<close> listener of \<open>init\<close> reads it.\<close>

record response =
  url :: string
  contentType :: "string option"

text \<open>What one of the three image locators answers.\<close>

record image_probe =
  img_count :: "nat outcome"
  img_visible :: "bool outcome"
  img_src :: "string option outcome"

text \<open>
  What the browser, the network and the comment generator answer during one run of the
  task. A field of type \<open>outcome\<close> is the answer of one awaited call, which may throw;
  a flag \<open>..._ok\<close> says that a group of awaited calls with no result (navigation,
  waits, clicks, typing) went through without throwing.
\<close>

record task_scn =
  now :: string
  nav_ok :: bool
  private_count :: "nat outcome"
  nonpinned_count :: "nat outcome"
  allposts_count :: "nat outcome"
  shot_ok :: bool
  open_ok :: bool
  responses :: "response list"
  caption_visible :: "bool outcome"
  caption_text :: "string option outcome"
  video_error_count :: "nat outcome"
  video_count :: "nat outcome"
  image1 :: image_probe
  image2 :: image_probe
  image3 :: image_probe
  ai_comment :: "string outcome"
  textarea_count :: "nat outcome"
  typing_ok :: bool
  post_button_count :: "nat outcome"
  post_button_enabled :: "bool outcome"
  submit_ok :: bool
  our_comment_count :: "nat outcome"
  handler_shot_ok :: bool

text \<open>The result of a run: what it returned or that it threw, the bot afterwards, and
  the calls it made.\<close>

type_synonym task_run = "InteractionResult outcome \<times> bot_state \<times> action list"

definition after :: "action list \<Rightarrow> task_run \<Rightarrow> task_run" where
  "after as r = (case r of (res, b, bs) \<Rightarrow> (res, b, as @ bs))"

text \<open>A string is truthy when it is defined and not empty.\<close>

definition truthy :: "string option \<Rightarrow> bool" where
  "truthy v = (case v of None \<Rightarrow> False | Some t \<Rightarrow> t \<noteq> [])"

definition profileUrl :: "string \<Rightarrow> string" where
  "profileUrl target = ''https://www.instagram.com/'' @ target @ ''/?hl=en''"

definition screenshotName :: "string \<Rightarrow> string \<Rightarrow> string \<Rightarrow> string" where
  "screenshotName kind user target = kind @ ''_'' @ user @ ''_'' @ target @ ''.png''"

text \<open>The \<open>response\<close> listener registered by \<open>init\<close> (lines 95 to 114).\<close>

definition on_response :: "bot_state \<Rightarrow> response \<Rightarrow> bot_state" where
  "on_response b r =
     (if \<not> isCapturingVideo b then b
      else if truthy (capturedVideoUrl b) then b
      else if truthy (contentType r) \<and> str_includes (the (contentType r)) ''video/mp4''
              \<and> str_includes (url r) ''fbcdn.net''
              \<and> (str_includes (url r) ''instagram'' \<or> str_includes (url r) ''ig'')
           then b\<lparr>capturedVideoUrl := Some (url r)\<rparr>
      else b)"

text \<open>\<open>logInteraction\<close>: the line appended to the interaction log. A failure of the
  append is caught inside \<open>logInteraction\<close> and changes nothing in what follows.\<close>

definition sanitizedComment :: "string \<Rightarrow> string" where
  "sanitizedComment comment =
     [CHR 0x22] @ concat (map (\<lambda>c. if c = CHR 0x22 then [c, c] else [c]) comment) @ [CHR 0x22]"

definition logInteraction :: "bot_state \<Rightarrow> task_scn \<Rightarrow> string \<Rightarrow> string \<Rightarrow> action" where
  "logInteraction b scn target comment =
     AppendLog (now scn @ '','' @ username (config b) @ '','' @ target @ '',''
                @ ''comment'' @ '','' @ sanitizedComment comment @ [CHR 0x0A])"

text \<open>Lines 409 to 422: submit, wait, look for the comment in the thread.\<close>

definition verifyAndLog :: "bot_state \<Rightarrow> task_scn \<Rightarrow> string \<Rightarrow> string \<Rightarrow> task_run" where
  "verifyAndLog b scn target comment =
     (if \<not> submit_ok scn then (Throws, b, [ClickPost])
      else
        (case our_comment_count scn of
           Throws \<Rightarrow> (Throws, b, [ClickPost])
         | Returns c \<Rightarrow>
             if c > 0 then (Returns SUCCESS, b, [ClickPost, logInteraction b scn target comment])
             else (Returns SUCCESS, b, [ClickPost, logInteraction b scn target comment])))"

text \<open>A diagnostic screenshot inside the \<open>try\<close> block, then the given result.\<close>

definition shotThen :: "bot_state \<Rightarrow> task_scn \<Rightarrow> string \<Rightarrow> InteractionResult \<Rightarrow> task_run" where
  "shotThen b scn name r =
     (if shot_ok scn then (Returns r, b, [Screenshot name]) else (Throws, b, [Screenshot name]))"

text \<open>Lines 380 to 407: the comment area, typing, the Post button.\<close>

definition submitComment :: "bot_state \<Rightarrow> task_scn \<Rightarrow> string \<Rightarrow> string \<Rightarrow> task_run" where
  "submitComment b scn target comment =
     (case textarea_count scn of
        Throws \<Rightarrow> (Throws, b, [])
      | Returns a \<Rightarrow>
          if a = 0 then
            shotThen b scn
              (screenshotName ''no_comment_area_error'' (username (config b)) target) SKIPPED
          else if \<not> typing_ok scn then (Throws, b, [TypeComment comment])
          else
            after [TypeComment comment]
              (case post_button_count scn of
                 Throws \<Rightarrow> (Throws, b, [])
               | Returns p \<Rightarrow>
                   if p = 0 then
                     shotThen b scn
                       (screenshotName ''no_post_button_error'' (username (config b)) target) FAILED
                   else
                     (case post_button_enabled scn of
                        Throws \<Rightarrow> (Throws, b, [])
                      | Returns en \<Rightarrow>
                          if \<not> en then
                            shotThen b scn
                              (screenshotName ''no_post_button_error'' (username (config b)) target)
                              FAILED
                          else verifyAndLog b scn target comment)))"

text \<open>Lines 309 to 321: the caption; a failure is caught and leaves it empty.\<close>

definition extractCaption :: "task_scn \<Rightarrow> string" where
  "extractCaption scn =
     (case caption_visible scn of
        Throws \<Rightarrow> []
      | Returns v \<Rightarrow>
          if v then
            (case caption_text scn of
               Throws \<Rightarrow> []
             | Returns t \<Rightarrow> (case t of None \<Rightarrow> [] | Some c \<Rightarrow> c))
          else [])"

text \<open>Lines 351 to 360: the first visible image whose source is not a placeholder.\<close>

fun probeImages :: "image_probe list \<Rightarrow> string option outcome" where
  "probeImages [] = Returns None"
| "probeImages (p # ps) =
     (case img_count p of
        Throws \<Rightarrow> Throws
      | Returns c \<Rightarrow>
          if c > 0 then
            (case img_visible p of
               Throws \<Rightarrow> Throws
             | Returns v \<Rightarrow>
                 if v then
                   (case img_src p of
                      Throws \<Rightarrow> Throws
                    | Returns src \<Rightarrow>
                        if truthy src \<and> \<not> str_includes (the src) ''static''
                             \<and> \<not> str_includes (the src) ''sprite''
                        then Returns src
                        else probeImages ps)
                 else probeImages ps)
          else probeImages ps)"

text \<open>Lines 323 to 368: the image and video addresses; a failure is caught and leaves
  both undefined.\<close>

definition videoBranch :: "bot_state \<Rightarrow> string option \<times> string option" where
  "videoBranch b = (if truthy (capturedVideoUrl b) then (None, capturedVideoUrl b) else (None, None))"

definition extractMedia :: "bot_state \<Rightarrow> task_scn \<Rightarrow> string option \<times> string option" where
  "extractMedia b scn =
     (case video_error_count scn of
        Throws \<Rightarrow> (None, None)
      | Returns e \<Rightarrow>
          if e > 0 then videoBranch b
          else
            (case video_count scn of
               Throws \<Rightarrow> (None, None)
             | Returns v \<Rightarrow>
                 if v > 0 then videoBranch b
                 else
                   (case probeImages [image1 scn, image2 scn, image3 scn] of
                      Throws \<Rightarrow> (None, None)
                    | Returns img \<Rightarrow> (img, None))))"

text \<open>Lines 370 to 378: the comment is asked of the generator.\<close>

definition generateAndSubmit ::
  "bot_state \<Rightarrow> task_scn \<Rightarrow> string \<Rightarrow> string option \<Rightarrow> task_run" where
  "generateAndSubmit b scn target hint =
     (let caption = extractCaption scn;
          (img, vid) = extractMedia b scn;
          call = GenerateComment caption target hint img vid
      in case ai_comment scn of
           Throws \<Rightarrow> (Throws, b, [ExtractCaption, ExtractMedia, call])
         | Returns comment \<Rightarrow>
             after [ExtractCaption, ExtractMedia, call] (submitComment b scn target comment))"

text \<open>Lines 297 to 307: the capture window opens, the latest post is opened. The
  responses of the scenario arrive while the post opens.\<close>

definition openPost :: "bot_state \<Rightarrow> task_scn \<Rightarrow> string \<Rightarrow> string option \<Rightarrow> task_run" where
  "openPost b scn target hint =
     (let b1 = b\<lparr>isCapturingVideo := True\<rparr>;
          b2 = foldl on_response b1 (responses scn)
      in if \<not> open_ok scn then (Throws, b2, [OpenPost])
         else after [OpenPost] (generateAndSubmit b2 scn target hint))"

text \<open>Lines 276 to 295: the posts that are not pinned.\<close>

definition findPost :: "bot_state \<Rightarrow> task_scn \<Rightarrow> string \<Rightarrow> string option \<Rightarrow> task_run" where
  "findPost b scn target hint =
     (case nonpinned_count scn of
        Throws \<Rightarrow> (Throws, b, [EnumeratePosts])
      | Returns n \<Rightarrow>
          if n = 0 then
            (case allposts_count scn of
               Throws \<Rightarrow> (Throws, b, [EnumeratePosts])
             | Returns _ \<Rightarrow>
                 after [EnumeratePosts]
                   (shotThen b scn
                      (screenshotName ''no_posts_error'' (username (config b)) target) SKIPPED))
          else after [EnumeratePosts] (openPost b scn target hint))"

text \<open>Lines 262 to 422, the \<open>try\<close> block.\<close>

definition tryBody :: "bot_state \<Rightarrow> task_scn \<Rightarrow> string \<Rightarrow> string option \<Rightarrow> task_run" where
  "tryBody b scn target hint =
     (let b0 = b\<lparr>isCapturingVideo := False, capturedVideoUrl := None\<rparr>
      in if \<not> nav_ok scn then (Throws, b0, [Goto (profileUrl target)])
         else
           (case private_count scn of
              Throws \<Rightarrow> (Throws, b0, [Goto (profileUrl target)])
            | Returns n \<Rightarrow>
                if n > 0 then (Returns SKIPPED, b0, [Goto (profileUrl target)])
                else after [Goto (profileUrl target)] (findPost b0 scn target hint)))"

text \<open>Lines 423 to 429: the \<open>catch\<close> block takes a screenshot, which may throw in its
  turn, and returns FAILED; the \<open>finally\<close> block closes the capture window.\<close>

definition runCommentTask :: "bot_state \<Rightarrow> task_scn \<Rightarrow> string \<Rightarrow> string option \<Rightarrow> task_run" where
  "runCommentTask b scn target hint =
     (case tryBody b scn target hint of
        (res, b', as) \<Rightarrow>
          (let shot = Screenshot (screenshotName ''comment_task_error'' (username (config b)) target);
               caught =
                 (case res of
                    Returns r \<Rightarrow> (Returns r, as)
                  | Throws \<Rightarrow>
                      if handler_shot_ok scn then (Returns FAILED, as @ [shot])
                      else (Throws, as @ [shot]))
           in (fst caught, b'\<lparr>isCapturingVideo := False\<rparr>, snd caught)))"


definition isGenerateComment :: "action \<Rightarrow> bool" where
  "isGenerateComment a = (case a of GenerateComment _ _ _ _ _ \<Rightarrow> True | _ \<Rightarrow> False)"

section \<open>main.ts: the profile counts of a target\<close>

record ProfileStats =
  postCount :: number
  followerCount :: number

text \<open>What the monitoring page answers while \<open>getProfileStats\<close> visits one profile.\<close>

record profile_page =
  visit_ok :: bool
  unavailable_count :: "nat outcome"
  privateNotice_count :: "nat outcome"
  statsList_ok :: bool
  postText :: "string option outcome"
  titleSpan_count :: "nat outcome"
  titleAttr :: "string option outcome"
  followerText :: "string option outcome"
  stats_shot_ok :: bool
  stats_handler_shot_ok :: bool

type_synonym stats_run = "ProfileStats option outcome \<times> action list"

definition statsShotName :: "string \<Rightarrow> string" where
  "statsShotName target = ''stats_error_'' @ target @ ''.png''"

text \<open>A diagnostic screenshot inside the \<open>try\<close> block, then \<open>return null\<close>.\<close>

definition statsShotThenNull :: "profile_page \<Rightarrow> string \<Rightarrow> stats_run" where
  "statsShotThenNull pg target =
     (if stats_shot_ok pg then (Returns None, [Screenshot (statsShotName target)])
      else (Throws, [Screenshot (statsShotName target)]))"

text \<open>Lines 141 to 148: the exact count in the \<open>title\<close> attribute, when there is one.\<close>

definition followerFromTitle :: "profile_page \<Rightarrow> number option outcome" where
  "followerFromTitle pg =
     (case titleSpan_count pg of
        Throws \<Rightarrow> Throws
      | Returns c \<Rightarrow>
          if c > 0 then
            (case titleAttr pg of
               Throws \<Rightarrow> Throws
             | Returns t \<Rightarrow>
                 if truthy t then
                   (case parseInt (removeCommas (the t)) of
                      None \<Rightarrow> Returns None
                    | Some parsed \<Rightarrow> Returns (Some (of_int parsed)))
                 else Returns None)
          else Returns None)"

text \<open>Lines 150 to 156: otherwise the abbreviated count in the text.\<close>

definition followerFromText :: "profile_page \<Rightarrow> number option outcome" where
  "followerFromText pg =
     (case followerText pg of
        Throws \<Rightarrow> Throws
      | Returns t \<Rightarrow>
          if truthy t then Returns (parseFollowerCount (firstToken (removeCommas (the t))))
          else Returns None)"

definition readFollowers :: "profile_page \<Rightarrow> number option outcome" where
  "readFollowers pg =
     (case followerFromTitle pg of
        Throws \<Rightarrow> Throws
      | Returns r \<Rightarrow> (case r of Some n \<Rightarrow> Returns (Some n) | None \<Rightarrow> followerFromText pg))"

text \<open>Lines 125 to 165: the two counts are read off the statistics list.\<close>

definition readCounts :: "profile_page \<Rightarrow> string \<Rightarrow> stats_run" where
  "readCounts pg target =
     (case postText pg of
        Throws \<Rightarrow> (Throws, [])
      | Returns pt \<Rightarrow>
          if \<not> truthy pt then statsShotThenNull pg target
          else
            (case parseInt (firstToken (removeCommas (the pt))) of
               None \<Rightarrow> (Returns None, [])
             | Some pc \<Rightarrow>
                 (case readFollowers pg of
                    Throws \<Rightarrow> (Throws, [])
                  | Returns r \<Rightarrow>
                      (case r of
                         None \<Rightarrow> statsShotThenNull pg target
                       | Some fc \<Rightarrow>
                           (Returns (Some \<lparr>postCount = of_int pc, followerCount = fc\<rparr>), [])))))"

text \<open>Lines 105 to 165, the \<open>try\<close> block.\<close>

definition tryStats :: "profile_page \<Rightarrow> string \<Rightarrow> stats_run" where
  "tryStats pg target =
     (if \<not> visit_ok pg then (Throws, [Goto (profileUrl target)])
      else
        (case unavailable_count pg of
           Throws \<Rightarrow> (Throws, [Goto (profileUrl target)])
         | Returns u \<Rightarrow>
             if u > 0 then (Returns None, [Goto (profileUrl target)])
             else
               (case privateNotice_count pg of
                  Throws \<Rightarrow> (Throws, [Goto (profileUrl target)])
                | Returns p \<Rightarrow>
                    if p > 0 then (Returns None, [Goto (profileUrl target)])
                    else if \<not> statsList_ok pg then (Throws, [Goto (profileUrl target)])
                    else
                      (case readCounts pg target of
                         (res, as) \<Rightarrow> (res, Goto (profileUrl target) # as)))))"

text \<open>Lines 167 to 171: the \<open>catch\<close> block takes a screenshot, which may throw in its
  turn, and returns null.\<close>

definition getProfileStats :: "profile_page \<Rightarrow> string \<Rightarrow> stats_run" where
  "getProfileStats pg target =
     (case tryStats pg target of
        (res, as) \<Rightarrow>
          (case res of
             Returns r \<Rightarrow> (Returns r, as)
           | Throws \<Rightarrow>
               if stats_handler_shot_ok pg
               then (Returns None, as @ [Screenshot (statsShotName target)])
               else (Throws, as @ [Screenshot (statsShotName target)])))"


section \<open>main.ts: sessions and task launches\<close>

text \<open>
  Modelled from the spec: the type \<open>Fingerprint\<close> is declared in \<open>fingerprint.ts\<close>,
  which is not among the sources; its fields are those of section 3 of the
  specification, which are also the ones \<open>initializeBotSession\<close> reads.
\<close>

record Fingerprint =
  userAgent :: string
  viewport :: "nat \<times> nat"
  deviceScaleFactor :: number
  localeName :: string
  timezoneId :: string
  colorScheme :: string
  reducedMotion :: string
  hardwareConcurrency :: nat
  deviceMemory :: nat
  webgl :: "string \<times> string"

datatype launch_result = TaskResult InteractionResult | LAUNCH_ERROR

text \<open>What the program does to the world outside, in order.\<close>

datatype event =
    InitSession AccountConfig
  | GenerateFingerprint string
  | BrowserOpened string
  | NewContext string Fingerprint
  | BrowserClosed string
  | LaunchTask AccountConfig string
  | TaskReturned AccountConfig string launch_result
  | PageAction string action
  | CheckTarget string
  | StatsAction action
  | UpdateCsv string number number
  | WaitForEnter string

text \<open>
  The world outside the program: a clock that counts the interactions so far, the
  fingerprint files (one per account name, holding the fingerprint that was written to
  it), and the record of what was done. The text of a fingerprint file is not modelled:
  a file holds what \<open>JSON.stringify\<close> wrote and \<open>JSON.parse\<close> gives it back.
\<close>

record world =
  clock :: nat
  fingerprintFiles :: "string \<rightharpoonup> Fingerprint"
  events :: "event list"

definition tick :: "world \<Rightarrow> world" where
  "tick w = w\<lparr>clock := Suc (clock w)\<rparr>"

definition emit :: "event list \<Rightarrow> world \<Rightarrow> world" where
  "emit es w = w\<lparr>events := events w @ es\<rparr>"

text \<open>What happens outside while a browser session is set up for an account.\<close>

record session_scn =
  generated :: Fingerprint
  launch_ok :: bool
  setup_ok :: bool
  cleanup_ok :: bool

text \<open>
  The environment: what the outside answers at each interaction, by the clock. Each
  interaction (a session set up, a task run, a profile visited, a browser closed)
  reads the answer at the current clock and advances the clock.
\<close>

record env =
  session_at :: "nat \<Rightarrow> session_scn"
  task_at :: "nat \<Rightarrow> task_scn"
  profile_at :: "nat \<Rightarrow> profile_page"
  close_at :: "nat \<Rightarrow> bool"

text \<open>Lines 183 to 191: the fingerprint of the account is loaded, or generated and
  written when there is no file.\<close>

definition loadOrCreateFingerprint ::
  "session_scn \<Rightarrow> AccountConfig \<Rightarrow> world \<Rightarrow> Fingerprint \<times> world" where
  "loadOrCreateFingerprint scn acc w =
     (case fingerprintFiles w (username acc) of
        Some fp \<Rightarrow> (fp, w)
      | None \<Rightarrow>
          (generated scn,
           emit [GenerateFingerprint (username acc)]
             (w\<lparr>fingerprintFiles := (fingerprintFiles w)(username acc \<mapsto> generated scn)\<rparr>)))"

text \<open>
  Lines 174 to 253. The browser is launched outside the \<open>try\<close> block, so a failed
  launch throws; inside it the context is created with the fingerprint and the bot
  logs in (\<open>bot.init\<close>, taken as one step); the \<open>catch\<close> block closes the browser and
  returns null.
\<close>

definition initializeBotSession ::
  "env \<Rightarrow> AccountConfig \<Rightarrow> world \<Rightarrow> bot_state option outcome \<times> world" where
  "initializeBotSession e acc w =
     (let scn = session_at e (clock w);
          w1 = emit [InitSession acc] (tick w);
          (fp, w2) = loadOrCreateFingerprint scn acc w1
      in if \<not> launch_ok scn then (Throws, w2)
         else
           (let w3 = emit [BrowserOpened (username acc), NewContext (username acc) fp] w2
            in if setup_ok scn
               then (Returns (Some \<lparr>config = acc, isCapturingVideo = False,
                                     capturedVideoUrl = None\<rparr>), w3)
               else if cleanup_ok scn
               then (Returns None, emit [BrowserClosed (username acc)] w3)
               else (Throws, w3)))"

text \<open>\<open>browser.close()\<close>\<close>

definition closeBrowser :: "env \<Rightarrow> string \<Rightarrow> world \<Rightarrow> bool \<times> world" where
  "closeBrowser e user w =
     (if close_at e (clock w) then (True, emit [BrowserClosed user] (tick w))
      else (False, tick w))"

text \<open>
  Lines 255 to 280. The session is set up outside the \<open>try\<close> block; the task runs
  inside it, and an exception of the task becomes FAILED; the \<open>finally\<close> block closes
  the browser, and an exception there replaces the result.
\<close>

definition launchBotForTask ::
  "env \<Rightarrow> AccountConfig \<Rightarrow> string \<Rightarrow> string option \<Rightarrow> world \<Rightarrow> launch_result outcome \<times> world" where
  "launchBotForTask e acc target hint w =
     (case initializeBotSession e acc (emit [LaunchTask acc target] w) of
        (Throws, w1) \<Rightarrow> (Throws, w1)
      | (Returns None, w1) \<Rightarrow>
          (Returns LAUNCH_ERROR, emit [TaskReturned acc target LAUNCH_ERROR] w1)
      | (Returns (Some sbot), w1) \<Rightarrow>
          (case runCommentTask sbot (task_at e (clock w1)) target hint of
             (res, sbot', as) \<Rightarrow>
               (let w2 = emit (map (PageAction (username acc)) as) (tick w1);
                    result = (case res of Returns r \<Rightarrow> TaskResult r | Throws \<Rightarrow> TaskResult FAILED)
                in case closeBrowser e (username acc) w2 of
                     (True, w3) \<Rightarrow> (Returns result, emit [TaskReturned acc target result] w3)
                   | (False, w3) \<Rightarrow> (Throws, w3))))"

section \<open>main.ts: the operating modes\<close>

text \<open>The fields of the configuration that the modes read.\<close>

record Config =
  googleAiApiKey :: string
  accounts :: "AccountConfig list"

text \<open>Lines 380 to 395: the accounts to launch for each target, in a \<open>Map\<close>, which
  keeps its keys in the order of their first insertion.\<close>

type_synonym targetMap = "(string \<times> AccountConfig list) list"

definition addTarget :: "AccountConfig \<Rightarrow> targetMap \<Rightarrow> string \<Rightarrow> targetMap" where
  "addTarget acc m t =
     (case map_of m t of
        None \<Rightarrow> m @ [(t, [acc])]
      | Some _ \<Rightarrow> map (\<lambda>(k, v). if k = t then (k, v @ [acc]) else (k, v)) m)"

definition buildTargetMap :: "AccountConfig list \<Rightarrow> targetMap" where
  "buildTargetMap enabledAccounts =
     foldl (\<lambda>m acc. foldl (addTarget acc) m (targets acc)) [] enabledAccounts"

text \<open>\<open>targetMap.get(targetUsername) || []\<close>\<close>

definition tasksOf :: "targetMap \<Rightarrow> string \<Rightarrow> AccountConfig list" where
  "tasksOf m t = (case map_of m t of None \<Rightarrow> [] | Some as \<Rightarrow> as)"

text \<open>\<open>updateProfileStatsInCsv\<close>: the row of the target is rewritten in the CSV file.
  A failure of the file operations is caught inside and changes nothing in what
  follows; the call is what is recorded.\<close>

definition updateProfileStatsInCsv :: "string \<Rightarrow> ProfileStats \<Rightarrow> world \<Rightarrow> world" where
  "updateProfileStatsInCsv target st w = emit [UpdateCsv target (postCount st) (followerCount st)] w"



text \<open>The state of monitor mode: the map \<open>profileStats\<close> in memory, and the world.\<close>

type_synonym monitor = "(string \<rightharpoonup> ProfileStats) \<times> world"

text \<open>Lines 478 to 501: one task after the other for the accounts of the target.\<close>

fun runTasks ::
  "env \<Rightarrow> string \<Rightarrow> AccountConfig list \<Rightarrow> bool \<Rightarrow> world \<Rightarrow> bool outcome \<times> world" where
  "runTasks e target [] allOk w = (Returns allOk, w)"
| "runTasks e target (acc # rest) allOk w =
     (case launchBotForTask e acc target (aiPromptHint acc) w of
        (Throws, w') \<Rightarrow> (Throws, w')
      | (Returns result, w') \<Rightarrow>
          runTasks e target rest
            (if result = TaskResult FAILED \<or> result = LAUNCH_ERROR then False else allOk) w')"

definition commit :: "string \<Rightarrow> ProfileStats \<Rightarrow> monitor \<Rightarrow> monitor" where
  "commit target cur m =
     (case m of (ps, w) \<Rightarrow> (ps(target \<mapsto> cur), updateProfileStatsInCsv target cur w))"

text \<open>Lines 456 to 531: the fetched counts against the counts in memory.\<close>

definition compareStats ::
  "env \<Rightarrow> targetMap \<Rightarrow> string \<Rightarrow> ProfileStats \<Rightarrow> monitor \<Rightarrow> unit outcome \<times> monitor" where
  "compareStats e tm target cur m =
     (case m of (ps, w) \<Rightarrow>
        (case ps target of
           None \<Rightarrow> (Returns (), commit target cur (ps, w))
         | Some prev \<Rightarrow>
             if postCount cur > postCount prev then
               (case runTasks e target (tasksOf tm target) True w of
                  (Throws, w') \<Rightarrow> (Throws, (ps, w'))
                | (Returns allOk, w') \<Rightarrow>
                    if allOk then (Returns (), commit target cur (ps, w'))
                    else (Returns (), (ps, w')))
             else if postCount cur < postCount prev then (Returns (), commit target cur (ps, w))
             else if followerCount cur \<noteq> followerCount prev
             then (Returns (), commit target cur (ps, w))
             else (Returns (), (ps, w))))"

text \<open>Lines 444 to 531: one target of a cycle.\<close>

definition processTarget ::
  "env \<Rightarrow> targetMap \<Rightarrow> string \<Rightarrow> monitor \<Rightarrow> unit outcome \<times> monitor" where
  "processTarget e tm target m =
     (case m of (ps, w) \<Rightarrow>
        (case getProfileStats (profile_at e (clock w)) target of
           (res, as) \<Rightarrow>
             (let w1 = emit (CheckTarget target # map StatsAction as) (tick w)
              in case res of
                   Throws \<Rightarrow> (Throws, (ps, w1))
                 | Returns r \<Rightarrow>
                     (case r of
                        None \<Rightarrow> (Returns (), (ps, w1))
                      | Some cur \<Rightarrow> compareStats e tm target cur (ps, w1)))))"

text \<open>Lines 443 to 532: the targets of one cycle, in the order of the map's keys.\<close>

fun runTargets :: "env \<Rightarrow> targetMap \<Rightarrow> string list \<Rightarrow> monitor \<Rightarrow> unit outcome \<times> monitor" where
  "runTargets e tm [] m = (Returns (), m)"
| "runTargets e tm (t # ts) m =
     (case processTarget e tm t m of
        (Throws, m') \<Rightarrow> (Throws, m')
      | (Returns _, m') \<Rightarrow> runTargets e tm ts m')"

text \<open>Lines 438 to 540: the loop never ends by itself; the first \<open>n\<close> cycles of it.\<close>

fun runCycles :: "env \<Rightarrow> targetMap \<Rightarrow> nat \<Rightarrow> monitor \<Rightarrow> unit outcome \<times> monitor" where
  "runCycles e tm 0 m = (Returns (), m)"
| "runCycles e tm (Suc n) m =
     (case runTargets e tm (map fst tm) m of
        (Throws, m') \<Rightarrow> (Throws, m')
      | (Returns _, m') \<Rightarrow> runCycles e tm n m')"

text \<open>How a mode stands: it returned, it ended with an exception, or (monitor mode
  after the cycles observed) it is still running.\<close>

datatype ending = Exited | Crashed | Running

text \<open>
  Lines 377 to 548, observed for \<open>n\<close> cycles. \<open>stored\<close> is what
  \<open>loadProfileStatsFromCsv\<close> reads from the CSV file when the loop starts.
\<close>

definition runMonitorMode ::
  "nat \<Rightarrow> Config \<Rightarrow> (string \<rightharpoonup> ProfileStats) \<Rightarrow> env \<Rightarrow> world \<Rightarrow> ending \<times> monitor" where
  "runMonitorMode n cfg stored e w =
     (case filter enabled (accounts cfg) of
        [] \<Rightarrow> (Exited, (stored, w))
      | monitorAccount # others \<Rightarrow>
          (let tm = buildTargetMap (monitorAccount # others)
           in if tm = [] then (Exited, (stored, w))
              else
                (case initializeBotSession e monitorAccount w of
                   (Throws, w1) \<Rightarrow> (Crashed, (stored, w1))
                 | (Returns None, w1) \<Rightarrow> (Exited, (stored, w1))
                 | (Returns (Some sbot), w1) \<Rightarrow>
                     (case runCycles e tm n (stored, w1) of
                        (Throws, (ps, w2)) \<Rightarrow>
                          (Crashed, (ps, snd (closeBrowser e (username monitorAccount) w2)))
                      | (Returns _, m) \<Rightarrow> (Running, m)))))"

text \<open>Lines 282 to 324; \<open>arg\<close> is \<open>process.argv[3]\<close>.\<close>

definition chooseTestAccount :: "Config \<Rightarrow> string option \<Rightarrow> AccountConfig option" where
  "chooseTestAccount cfg arg =
     (if truthy arg then
        (case find (\<lambda>acc. username acc = the arg) (accounts cfg) of
           None \<Rightarrow> None
         | Some acc \<Rightarrow> if \<not> enabled acc then None else Some acc)
      else find enabled (accounts cfg))"

definition runTestCommentMode :: "Config \<Rightarrow> string option \<Rightarrow> env \<Rightarrow> world \<Rightarrow> ending \<times> world" where
  "runTestCommentMode cfg arg e w =
     (case chooseTestAccount cfg arg of
        None \<Rightarrow> (Exited, w)
      | Some acc \<Rightarrow>
          (case targets acc of
             [] \<Rightarrow> (Exited, w)
           | targetUsername # _ \<Rightarrow>
               (case launchBotForTask e acc targetUsername (aiPromptHint acc) w of
                  (Throws, w') \<Rightarrow> (Crashed, w')
                | (Returns _, w') \<Rightarrow> (Exited, w'))))"

text \<open>Lines 351 to 372: the enabled accounts are opened for inspection one by one.\<close>

fun checkAccounts :: "env \<Rightarrow> AccountConfig list \<Rightarrow> world \<Rightarrow> ending \<times> world" where
  "checkAccounts e [] w = (Exited, w)"
| "checkAccounts e (acc # rest) w =
     (case initializeBotSession e acc w of
        (Throws, w1) \<Rightarrow> (Crashed, w1)
      | (Returns None, w1) \<Rightarrow> checkAccounts e rest w1
      | (Returns (Some sbot), w1) \<Rightarrow>
          (case closeBrowser e (username acc) (emit [WaitForEnter (username acc)] w1) of
             (True, w2) \<Rightarrow> checkAccounts e rest w2
           | (False, w2) \<Rightarrow> (Crashed, w2)))"

definition runCheckAccountsMode :: "Config \<Rightarrow> env \<Rightarrow> world \<Rightarrow> ending \<times> world" where
  "runCheckAccountsMode cfg e w = checkAccounts e (filter enabled (accounts cfg)) w"

text \<open>
  Lines 575 to 603: without an API key the process exits before any mode; otherwise
  \<open>process.argv[2]\<close> chooses the mode. \<open>args\<close> are the command-line arguments from
  \<open>process.argv[2]\<close> on, so that its second element is the \<open>process.argv[3]\<close> of
  test-comment mode. The world at the end is what the three modes have in common.
\<close>

definition main :: "nat \<Rightarrow> Config \<Rightarrow> string list \<Rightarrow> (string \<rightharpoonup> ProfileStats) \<Rightarrow> env \<Rightarrow> world \<Rightarrow> ending \<times> world" where
  "main n cfg args stored e w =
     (if googleAiApiKey cfg = [] \<or> googleAiApiKey cfg = ''YOUR_GOOGLE_AI_API_KEY_HERE''
      then (Exited, w)
      else if args \<noteq> [] \<and> hd args = ''test-comment''
      then runTestCommentMode cfg (if 1 < length args then Some (args ! 1) else None) e w
      else if args \<noteq> [] \<and> hd args = ''check-accounts'' then runCheckAccountsMode cfg e w
      else (case runMonitorMode n cfg stored e w of (fin, (ps, w')) \<Rightarrow> (fin, w')))"

text \<open>The accounts for which a session was set up, the tasks launched and what they
  returned, and the rows written to the CSV file, read off a record of events.\<close>

definition sessionsOf :: "event list \<Rightarrow> AccountConfig list" where
  "sessionsOf es = concat (map (\<lambda>ev. case ev of InitSession a \<Rightarrow> [a] | _ \<Rightarrow> []) es)"

definition launchesOf :: "event list \<Rightarrow> (AccountConfig \<times> string) list" where
  "launchesOf es = concat (map (\<lambda>ev. case ev of LaunchTask a t \<Rightarrow> [(a, t)] | _ \<Rightarrow> []) es)"

definition returnsOf :: "event list \<Rightarrow> launch_result list" where
  "returnsOf es = concat (map (\<lambda>ev. case ev of TaskReturned a t r \<Rightarrow> [r] | _ \<Rightarrow> []) es)"

definition csvWritesOf :: "event list \<Rightarrow> (string \<times> number \<times> number) list" where
  "csvWritesOf es = concat (map (\<lambda>ev. case ev of UpdateCsv t p f \<Rightarrow> [(t, p, f)] | _ \<Rightarrow> []) es)"

definition contextsOf :: "event list \<Rightarrow> (string \<times> Fingerprint) list" where
  "contextsOf es = concat (map (\<lambda>ev. case ev of NewContext u f \<Rightarrow> [(u, f)] | _ \<Rightarrow> []) es)"

definition generatedOf :: "event list \<Rightarrow> string list" where
  "generatedOf es = concat (map (\<lambda>ev. case ev of GenerateFingerprint u \<Rightarrow> [u] | _ \<Rightarrow> []) es)"

text \<open>The launches and returns of tasks among the events, in their order.\<close>

definition isTaskEvent :: "event \<Rightarrow> bool" where
  "isTaskEvent ev = (case ev of LaunchTask _ _ \<Rightarrow> True | TaskReturned _ _ _ \<Rightarrow> True | _ \<Rightarrow> False)"

definition taskEventsOf :: "event list \<Rightarrow> event list" where
  "taskEventsOf es = filter isTaskEvent es"

text \<open>A result after which the task is not tried again: SUCCESS or SKIPPED.\<close>

definition succeededOrSkipped :: "launch_result \<Rightarrow> bool" where
  "succeededOrSkipped r = (r = TaskResult SUCCESS \<or> r = TaskResult SKIPPED)"

text \<open>The events of a run: those the world holds at the end beyond those at the start.\<close>

definition newEvents :: "world \<Rightarrow> world \<Rightarrow> event list" where
  "newEvents w w' = drop (length (events w)) (events w')"

section \<open>Example accounts and scenarios\<close>

text \<open>Concrete inputs on which the theorems below are run.\<close>

definition alice :: AccountConfig where
  "alice = \<lparr>enabled = True, username = ''alice'', password = ''pw1'',
            aiPromptHint = Some ''Be kind.'', actionDelaySeconds = None,
            targets = [''nasa'']\<rparr>"

definition aliceBot :: bot_state where
  "aliceBot = \<lparr>config = alice, isCapturingVideo = False, capturedVideoUrl = None\<rparr>"

definition noImage :: image_probe where
  "noImage = \<lparr>img_count = Returns 0, img_visible = Returns False, img_src = Returns None\<rparr>"

text \<open>A public profile with posts; the comment is posted and then found in the thread.\<close>

definition okTask :: task_scn where
  "okTask =
     \<lparr>now = ''2024-01-01T00:00:00.000Z'', nav_ok = True, private_count = Returns 0,
      nonpinned_count = Returns 3, allposts_count = Returns 3, shot_ok = True,
      open_ok = True, responses = [], caption_visible = Returns True,
      caption_text = Returns (Some ''Launch day''), video_error_count = Returns 0,
      video_count = Returns 0, image1 = noImage, image2 = noImage, image3 = noImage,
      ai_comment = Returns ''Great shot'', textarea_count = Returns 1, typing_ok = True,
      post_button_count = Returns 1, post_button_enabled = Returns True, submit_ok = True,
      our_comment_count = Returns 1, handler_shot_ok = True\<rparr>"

text \<open>The same, on a private profile.\<close>

definition privateTask :: task_scn where
  "privateTask = okTask\<lparr>private_count := Returns 1\<rparr>"

text \<open>The page fails when the post is opened (a timeout): the screenshot of the
  \<open>catch\<close> block is taken.\<close>

definition timeoutTask :: task_scn where
  "timeoutTask = okTask\<lparr>open_ok := False\<rparr>"

text \<open>The page is gone: navigation throws, and so does the screenshot of the
  \<open>catch\<close> block.\<close>

definition crashedTask :: task_scn where
  "crashedTask = okTask\<lparr>nav_ok := False, handler_shot_ok := False\<rparr>"

text \<open>A fingerprint, a session that comes up, and a world with no fingerprint file.\<close>

definition demoFingerprint :: Fingerprint where
  "demoFingerprint =
     \<lparr>userAgent = ''Mozilla/5.0'', viewport = (1920, 1080), deviceScaleFactor = 1,
      localeName = ''en-US'', timezoneId = ''America/New_York'', colorScheme = ''light'',
      reducedMotion = ''no-preference'', hardwareConcurrency = 8, deviceMemory = 8,
      webgl = (''Intel Inc.'', ''Intel Iris OpenGL Engine'')\<rparr>"

definition otherFingerprint :: Fingerprint where
  "otherFingerprint = demoFingerprint\<lparr>userAgent := ''Mozilla/4.0'', viewport := (1366, 768)\<rparr>"

definition demoSession :: session_scn where
  "demoSession = \<lparr>generated = demoFingerprint, launch_ok = True, setup_ok = True,
                   cleanup_ok = True\<rparr>"

definition world0 :: world where
  "world0 = \<lparr>clock = 0, fingerprintFiles = Map.empty, events = []\<rparr>"

text \<open>A profile page that shows the given post text, with 1,000 followers in the
  \<open>title\<close> attribute.\<close>

definition pageWith :: "string \<Rightarrow> profile_page" where
  "pageWith posts =
     \<lparr>visit_ok = True, unavailable_count = Returns 0, privateNotice_count = Returns 0,
      statsList_ok = True, postText = Returns (Some posts), titleSpan_count = Returns 1,
      titleAttr = Returns (Some ''1,000''), followerText = Returns (Some ''1,000 followers''),
      stats_shot_ok = True, stats_handler_shot_ok = True\<rparr>"

text \<open>An environment that answers the same at every interaction: sessions come up,
  browsers close, every task meets the given scenario and every visit the given page.\<close>

definition steadyEnv :: "task_scn \<Rightarrow> profile_page \<Rightarrow> env" where
  "steadyEnv scn pg =
     \<lparr>session_at = (\<lambda>_. demoSession), task_at = (\<lambda>_. scn), profile_at = (\<lambda>_. pg),
      close_at = (\<lambda>_. True)\<rparr>"

text \<open>The same environment, except that a fingerprint generated in it is another one;
  and a world in which the account \<open>alice\<close> has a fingerprint file.\<close>

definition laterEnv :: env where
  "laterEnv =
     (steadyEnv okTask (pageWith ''6 posts''))
       \<lparr>session_at := (\<lambda>_. demoSession\<lparr>generated := otherFingerprint\<rparr>)\<rparr>"

definition worldWithFile :: world where
  "worldWithFile = world0\<lparr>fingerprintFiles := [''alice'' \<mapsto> otherFingerprint]\<rparr>"

text \<open>A second account on the same target, a disabled one, and an account that names
  its target twice.\<close>

definition bob :: AccountConfig where
  "bob = \<lparr>enabled = True, username = ''bob'', password = ''pw2'', aiPromptHint = None,
          actionDelaySeconds = None, targets = [''nasa'']\<rparr>"

definition carol :: AccountConfig where
  "carol = \<lparr>enabled = False, username = ''carol'', password = ''pw3'', aiPromptHint = None,
            actionDelaySeconds = None, targets = [''nasa'']\<rparr>"

definition dave :: AccountConfig where
  "dave = \<lparr>enabled = True, username = ''dave'', password = ''pw4'', aiPromptHint = None,
           actionDelaySeconds = None, targets = [''nasa'', ''nasa'']\<rparr>"

definition twoAccounts :: Config where
  "twoAccounts = \<lparr>googleAiApiKey = ''key'', accounts = [alice, carol, bob]\<rparr>"

definition oneAccount :: Config where
  "oneAccount = \<lparr>googleAiApiKey = ''key'', accounts = [dave]\<rparr>"

text \<open>The counts in memory: 5 posts and 1,000 followers for the target \<open>nasa\<close>.\<close>

definition fivePosts :: "string \<rightharpoonup> ProfileStats" where
  "fivePosts = [''nasa'' \<mapsto> \<lparr>postCount = 5, followerCount = 1000\<rparr>]"

text \<open>An environment in which everything goes well, and one in which the task run at
  clock 5 (that of the second account of a fan-out started at clock 0) meets a timeout.\<close>

definition calmEnv :: env where
  "calmEnv = steadyEnv okTask (pageWith ''6 posts'')"

definition secondFails :: env where
  "secondFails = calmEnv\<lparr>task_at := (\<lambda>n. if n = 5 then timeoutTask else okTask)\<rparr>"

text \<open>A page that cannot be reached and of which no screenshot can be taken, and an
  environment in which every visit meets it.\<close>

definition gonePage :: profile_page where
  "gonePage = (pageWith ''6 posts'')\<lparr>visit_ok := False, stats_handler_shot_ok := False\<rparr>"

definition goneEnv :: env where
  "goneEnv = steadyEnv okTask gonePage"


definition sixPosts :: "string \<rightharpoonup> ProfileStats" where
  "sixPosts = [''nasa'' \<mapsto> \<lparr>postCount = 6, followerCount = 1000\<rparr>]"

definition sevenPosts :: "string \<rightharpoonup> ProfileStats" where
  "sevenPosts = [''nasa'' \<mapsto> \<lparr>postCount = 7, followerCount = 1000\<rparr>]"

section \<open>Evaluation rules\<close>

text \<open>The definitions that the simplifier unfolds to run the string and number
  functions on a literal.\<close>

lemma floor_numeral_div: "\<lfloor>numeral a / numeral b :: rat\<rfloor> = numeral a div numeral b"
  using floor_divide_of_int_eq [of "numeral a" "numeral b", where ?'a = rat] by simp

lemmas str_defs = trimStart_def trim_def isWhiteSpace_def charCode_def lowerChar_def
  char_of_def bit_Suc_0_iff toLowerCase_def removeCommas_def firstToken_def isDigit_def
  digitsValue_def readSign_def

lemmas num_defs = floor_numeral_div Math_round_def parseInt_def parseFloat_def
  readExponent_def scale10_def

lemmas task_eval = runCommentTask_def tryBody_def findPost_def openPost_def
  generateAndSubmit_def submitComment_def verifyAndLog_def shotThen_def after_def
  extractCaption_def extractMedia_def videoBranch_def truthy_def Let_def
  okTask_def privateTask_def timeoutTask_def crashedTask_def noImage_def aliceBot_def

lemmas session_eval = initializeBotSession_def loadOrCreateFingerprint_def closeBrowser_def
  launchBotForTask_def emit_def tick_def steadyEnv_def demoSession_def world0_def Let_def

section \<open>Properties of parseFollowerCount\<close>







text \<open>Nor is every result an integer: a plain \<open>1.5\<close> comes back as it was parsed.\<close>

lemma three_halves_not_int: "(3 / 2 :: rat) \<notin> \<int>"
proof
  assume "(3 / 2 :: rat) \<in> \<int>"
  then obtain i :: int where "(3 / 2 :: rat) = of_int i" by (rule Ints_cases)
  then have "(of_int 3 :: rat) = of_int (2 * i)" by simp
  then have "3 = 2 * i" by (simp only: of_int_eq_iff)
  then show False by presburger
qed

lemma parseFollowerCount_fraction:
  "parseFollowerCount ''1.5'' = Some (3 / 2) \<and> (3 / 2 :: rat) \<notin> \<int>"
  by (simp add: three_halves_not_int parseFollowerCount_def cleanedText_def str_defs num_defs)

section \<open>Properties of the comment task\<close>























text \<open>
  C5. When the profile page is classified private (the page was reached and the private
  notice was counted at least once), the task returns SKIPPED, and the navigation is
  the only call it has made: it has not enumerated the posts, opened a post, extracted
  a caption or media, or asked the generator for a comment.
\<close>

theorem private_profile_is_skipped:
  "nav_ok scn \<Longrightarrow> private_count scn = Returns n \<Longrightarrow> 0 < n \<Longrightarrow>
   runCommentTask b scn target hint = (res, b', acts) \<Longrightarrow>
     res = Returns SKIPPED \<and> acts = [Goto (profileUrl target)]
     \<and> EnumeratePosts \<notin> set acts \<and> OpenPost \<notin> set acts
     \<and> ExtractCaption \<notin> set acts \<and> ExtractMedia \<notin> set acts
     \<and> \<not> list_ex isGenerateComment acts"
  by (auto simp add: runCommentTask_def tryBody_def Let_def isGenerateComment_def)

theorem private_profile_is_skipped_witness:
  "runCommentTask aliceBot privateTask ''nasa'' None
     = (Returns SKIPPED, aliceBot, [Goto ''https://www.instagram.com/nasa/?hl=en''])"
proof -
  let ?run = "runCommentTask aliceBot privateTask ''nasa'' None"
  have hyp: "nav_ok privateTask" "private_count privateTask = Returns 1"
    by (simp_all add: privateTask_def okTask_def)
  have b: "fst (snd ?run) = aliceBot"
    by (simp add: runCommentTask_def tryBody_def Let_def hyp aliceBot_def)
  show ?thesis
    using private_profile_is_skipped [of privateTask 1 aliceBot "''nasa''" None "fst ?run"
        "fst (snd ?run)" "snd (snd ?run)"] hyp b
    by (simp add: profileUrl_def prod_eq_iff)
qed

section \<open>Exceptions and cleanup of the comment task\<close>





section \<open>Sessions and fingerprints\<close>

lemma newEvents_append: "events w' = events w @ es \<Longrightarrow> newEvents w w' = es"
  by (simp add: newEvents_def)

lemma newEvents_same: "newEvents w w = []"
  by (simp add: newEvents_def)

lemma newEvents_emit: "newEvents w (emit es w) = es"
  by (simp add: newEvents_def emit_def)

lemma proj_append:
  "sessionsOf (xs @ ys) = sessionsOf xs @ sessionsOf ys"
  "launchesOf (xs @ ys) = launchesOf xs @ launchesOf ys"
  "returnsOf (xs @ ys) = returnsOf xs @ returnsOf ys"
  "csvWritesOf (xs @ ys) = csvWritesOf xs @ csvWritesOf ys"
  "contextsOf (xs @ ys) = contextsOf xs @ contextsOf ys"
  "generatedOf (xs @ ys) = generatedOf xs @ generatedOf ys"
  "taskEventsOf (xs @ ys) = taskEventsOf xs @ taskEventsOf ys"
  by (simp_all add: sessionsOf_def launchesOf_def returnsOf_def csvWritesOf_def contextsOf_def
      generatedOf_def taskEventsOf_def)

lemma proj_Nil:
  "sessionsOf [] = []" "launchesOf [] = []" "returnsOf [] = []" "csvWritesOf [] = []"
  "contextsOf [] = []" "generatedOf [] = []" "taskEventsOf [] = []"
  by (simp_all add: sessionsOf_def launchesOf_def returnsOf_def csvWritesOf_def contextsOf_def
      generatedOf_def taskEventsOf_def)

lemma proj_Cons:
  "sessionsOf (ev # es) = (case ev of InitSession a \<Rightarrow> [a] | _ \<Rightarrow> []) @ sessionsOf es"
  "launchesOf (ev # es) = (case ev of LaunchTask a t \<Rightarrow> [(a, t)] | _ \<Rightarrow> []) @ launchesOf es"
  "returnsOf (ev # es) = (case ev of TaskReturned a t r \<Rightarrow> [r] | _ \<Rightarrow> []) @ returnsOf es"
  "csvWritesOf (ev # es) = (case ev of UpdateCsv t p f \<Rightarrow> [(t, p, f)] | _ \<Rightarrow> []) @ csvWritesOf es"
  "contextsOf (ev # es) = (case ev of NewContext u f \<Rightarrow> [(u, f)] | _ \<Rightarrow> []) @ contextsOf es"
  "generatedOf (ev # es) = (case ev of GenerateFingerprint u \<Rightarrow> [u] | _ \<Rightarrow> []) @ generatedOf es"
  "taskEventsOf (ev # es) = (if isTaskEvent ev then [ev] else []) @ taskEventsOf es"
  by (simp_all add: sessionsOf_def launchesOf_def returnsOf_def csvWritesOf_def contextsOf_def
      generatedOf_def taskEventsOf_def)

lemmas proj_simps = proj_append proj_Nil proj_Cons isTaskEvent_def

lemma initializeBotSession_events:
  "initializeBotSession e acc w = (r, w') \<Longrightarrow>
   \<exists>es. events w' = events w @ es \<and> sessionsOf es = [acc] \<and> launchesOf es = []
     \<and> returnsOf es = [] \<and> csvWritesOf es = [] \<and> taskEventsOf es = []
     \<and> generatedOf es = (if fingerprintFiles w (username acc) = None then [username acc] else [])
     \<and> contextsOf es =
         (if launch_ok (session_at e (clock w))
          then [(username acc, case fingerprintFiles w (username acc) of
                                 Some fp \<Rightarrow> fp | None \<Rightarrow> generated (session_at e (clock w)))]
          else [])"
  by (auto simp add: initializeBotSession_def loadOrCreateFingerprint_def emit_def tick_def
      Let_def proj_simps split: option.splits if_splits)

lemma initializeBotSession_files:
  "initializeBotSession e acc w = (r, w') \<Longrightarrow>
   fingerprintFiles w' =
     (case fingerprintFiles w (username acc) of
        Some fp \<Rightarrow> fingerprintFiles w
      | None \<Rightarrow> (fingerprintFiles w)(username acc \<mapsto> generated (session_at e (clock w))))"
  by (auto simp add: initializeBotSession_def loadOrCreateFingerprint_def emit_def tick_def
      Let_def split: option.splits if_splits)

lemma initializeBotSession_clock:
  "initializeBotSession e acc w = (r, w') \<Longrightarrow> clock w' = Suc (clock w)"
  by (auto simp add: initializeBotSession_def loadOrCreateFingerprint_def emit_def tick_def
      Let_def split: option.splits if_splits)


text \<open>
  C8. A session is set up for an account, and then another one, whatever the outside
  answers each time. If the account had a fingerprint file, neither set-up generates a
  fingerprint or changes the files, and every browser context they create carries the
  fingerprint of the file. If it had none, the first set-up generates one, writes it as
  the file of the account and uses it, and the second set-up generates nothing, leaves
  the files alone and uses the same fingerprint. A fingerprint is generated only when
  the account has no file.
\<close>

theorem fingerprint_load_or_create:
  "initializeBotSession e acc w = (r, w') \<Longrightarrow> initializeBotSession e' acc w' = (r', w'') \<Longrightarrow>
     (fingerprintFiles w (username acc) = Some fp \<longrightarrow>
        fingerprintFiles w' = fingerprintFiles w
        \<and> generatedOf (newEvents w w') = []
        \<and> contextsOf (newEvents w w')
            = (if launch_ok (session_at e (clock w)) then [(username acc, fp)] else [])
        \<and> fingerprintFiles w'' = fingerprintFiles w
        \<and> generatedOf (newEvents w' w'') = []
        \<and> contextsOf (newEvents w' w'')
            = (if launch_ok (session_at e' (clock w')) then [(username acc, fp)] else []))
     \<and> (fingerprintFiles w (username acc) = None \<longrightarrow>
        fingerprintFiles w'
            = (fingerprintFiles w)(username acc \<mapsto> generated (session_at e (clock w)))
        \<and> generatedOf (newEvents w w') = [username acc]
        \<and> contextsOf (newEvents w w')
            = (if launch_ok (session_at e (clock w))
               then [(username acc, generated (session_at e (clock w)))] else [])
        \<and> fingerprintFiles w'' = fingerprintFiles w'
        \<and> generatedOf (newEvents w' w'') = []
        \<and> contextsOf (newEvents w' w'')
            = (if launch_ok (session_at e' (clock w'))
               then [(username acc, generated (session_at e (clock w)))] else []))
     \<and> (generatedOf (newEvents w w') \<noteq> [] \<longrightarrow> fingerprintFiles w (username acc) = None)"
proof -
  assume one: "initializeBotSession e acc w = (r, w')"
    and two: "initializeBotSession e' acc w' = (r', w'')"
  from initializeBotSession_events [OF one] obtain es where
    es: "events w' = events w @ es"
      "generatedOf es = (if fingerprintFiles w (username acc) = None then [username acc] else [])"
      "contextsOf es =
         (if launch_ok (session_at e (clock w))
          then [(username acc, case fingerprintFiles w (username acc) of
                                 Some fp \<Rightarrow> fp | None \<Rightarrow> generated (session_at e (clock w)))]
          else [])"
    by blast
  from initializeBotSession_events [OF two] obtain es' where
    es': "events w'' = events w' @ es'"
      "generatedOf es' = (if fingerprintFiles w' (username acc) = None then [username acc] else [])"
      "contextsOf es' =
         (if launch_ok (session_at e' (clock w'))
          then [(username acc, case fingerprintFiles w' (username acc) of
                                 Some fp \<Rightarrow> fp | None \<Rightarrow> generated (session_at e' (clock w')))]
          else [])"
    by blast
  note n1 = newEvents_append [OF es(1)] and n2 = newEvents_append [OF es'(1)]
  note f1 = initializeBotSession_files [OF one] and f2 = initializeBotSession_files [OF two]
  show ?thesis
  proof (cases "fingerprintFiles w (username acc)")
    case None
    then have "fingerprintFiles w' (username acc) = Some (generated (session_at e (clock w)))"
      using f1 by simp
    with None show ?thesis
      using f1 f2 es(2,3) es'(2,3) by (simp add: n1 n2)
  next
    case (Some fp0)
    then have "fingerprintFiles w' (username acc) = Some fp0"
      using f1 by simp
    with Some show ?thesis
      using f1 f2 es(2,3) es'(2,3) by (simp add: n1 n2)
  qed
qed


theorem fingerprint_load_or_create_witness:
  "contextsOf (newEvents world0
       (snd (initializeBotSession (steadyEnv okTask (pageWith ''6 posts'')) alice world0)))
     = [(''alice'', demoFingerprint)]
   \<and> generatedOf (newEvents world0
       (snd (initializeBotSession (steadyEnv okTask (pageWith ''6 posts'')) alice world0)))
     = [''alice'']
   \<and> contextsOf (newEvents
       (snd (initializeBotSession (steadyEnv okTask (pageWith ''6 posts'')) alice world0))
       (snd (initializeBotSession laterEnv alice
          (snd (initializeBotSession (steadyEnv okTask (pageWith ''6 posts'')) alice world0)))))
     = [(''alice'', demoFingerprint)]
   \<and> contextsOf (newEvents worldWithFile
       (snd (initializeBotSession (steadyEnv okTask (pageWith ''6 posts'')) alice worldWithFile)))
     = [(''alice'', otherFingerprint)]
   \<and> generatedOf (newEvents worldWithFile
       (snd (initializeBotSession (steadyEnv okTask (pageWith ''6 posts'')) alice worldWithFile)))
     = []"
proof -
  define e where "e = steadyEnv okTask (pageWith ''6 posts'')"
  define r1 w1 where "r1 = fst (initializeBotSession e alice world0)"
    and "w1 = snd (initializeBotSession e alice world0)"
  define r2 w2 where "r2 = fst (initializeBotSession laterEnv alice w1)"
    and "w2 = snd (initializeBotSession laterEnv alice w1)"
  define s1 v1 where "s1 = fst (initializeBotSession e alice worldWithFile)"
    and "v1 = snd (initializeBotSession e alice worldWithFile)"
  define s2 v2 where "s2 = fst (initializeBotSession laterEnv alice v1)"
    and "v2 = snd (initializeBotSession laterEnv alice v1)"
  have runs: "initializeBotSession e alice world0 = (r1, w1)"
    "initializeBotSession laterEnv alice w1 = (r2, w2)"
    "initializeBotSession e alice worldWithFile = (s1, v1)"
    "initializeBotSession laterEnv alice v1 = (s2, v2)"
    by (simp_all add: r1_def w1_def r2_def w2_def s1_def v1_def s2_def v2_def)
  have none: "fingerprintFiles world0 (username alice) = None"
    by (simp add: world0_def)
  have some: "fingerprintFiles worldWithFile (username alice) = Some otherFingerprint"
    by (simp add: worldWithFile_def world0_def alice_def)
  have env: "\<And>n. launch_ok (session_at e n)" "\<And>n. launch_ok (session_at laterEnv n)"
    "\<And>n. generated (session_at e n) = demoFingerprint"
    by (simp_all add: e_def steadyEnv_def laterEnv_def demoSession_def)
  have name: "username alice = ''alice''"
    by (simp add: alice_def)
  note T1 = fingerprint_load_or_create [OF runs(1) runs(2), of demoFingerprint]
  note N = T1 [THEN conjunct2, THEN conjunct1, THEN mp, OF none]
  note T2 = fingerprint_load_or_create [OF runs(3) runs(4), of otherFingerprint]
  note S = T2 [THEN conjunct1, THEN mp, OF some]
  have first: "generatedOf (newEvents world0 w1) = [''alice'']"
    using N [THEN conjunct2, THEN conjunct1] by (simp only: name)
  have second: "contextsOf (newEvents world0 w1) = [(''alice'', demoFingerprint)]"
    using N [THEN conjunct2, THEN conjunct2, THEN conjunct1] by (simp only: name env if_True)
  have third: "contextsOf (newEvents w1 w2) = [(''alice'', demoFingerprint)]"
    using N [THEN conjunct2, THEN conjunct2, THEN conjunct2, THEN conjunct2, THEN conjunct2]
    by (simp only: name env if_True)
  have fourth: "generatedOf (newEvents worldWithFile v1) = []"
    using S [THEN conjunct2, THEN conjunct1] .
  have fifth: "contextsOf (newEvents worldWithFile v1) = [(''alice'', otherFingerprint)]"
    using S [THEN conjunct2, THEN conjunct2, THEN conjunct1] by (simp only: name env if_True)
  show ?thesis
    unfolding e_def [symmetric] w1_def [symmetric] w2_def [symmetric] v1_def [symmetric]
    using first second third fourth fifth by (intro conjI)
qed

section \<open>Task launches, one after the other\<close>

lemma proj_PageAction:
  "sessionsOf (map (PageAction u) as) = []" "launchesOf (map (PageAction u) as) = []"
  "returnsOf (map (PageAction u) as) = []" "csvWritesOf (map (PageAction u) as) = []"
  "taskEventsOf (map (PageAction u) as) = []"
  by (induction as) (simp_all add: proj_simps)

lemma proj_StatsAction:
  "sessionsOf (map StatsAction as) = []" "launchesOf (map StatsAction as) = []"
  "returnsOf (map StatsAction as) = []" "csvWritesOf (map StatsAction as) = []"
  "taskEventsOf (map StatsAction as) = []"
  by (induction as) (simp_all add: proj_simps)

lemma closeBrowser_events:
  "closeBrowser e u w = (ok, w') \<Longrightarrow>
   \<exists>es. events w' = events w @ es \<and> sessionsOf es = [] \<and> launchesOf es = []
     \<and> returnsOf es = [] \<and> csvWritesOf es = [] \<and> taskEventsOf es = []"
  by (auto simp add: closeBrowser_def emit_def tick_def proj_simps split: if_splits)

lemma launchBotForTask_events:
  assumes "launchBotForTask e acc t h w = (res, w')"
  shows "\<exists>es. events w' = events w @ es \<and> sessionsOf es = [acc] \<and> launchesOf es = [(acc, t)]
     \<and> csvWritesOf es = []
     \<and> returnsOf es = (case res of Returns r \<Rightarrow> [r] | Throws \<Rightarrow> [])
     \<and> taskEventsOf es
         = LaunchTask acc t # (case res of Returns r \<Rightarrow> [TaskReturned acc t r] | Throws \<Rightarrow> [])"
proof -
  obtain r1 w1 where i: "initializeBotSession e acc (emit [LaunchTask acc t] w) = (r1, w1)"
    by (cases "initializeBotSession e acc (emit [LaunchTask acc t] w)") auto
  from initializeBotSession_events [OF i] obtain es1 where
    es1: "events w1 = events w @ LaunchTask acc t # es1" "sessionsOf es1 = [acc]"
      "launchesOf es1 = []" "returnsOf es1 = []" "csvWritesOf es1 = []" "taskEventsOf es1 = []"
    by (auto simp add: emit_def)
  show ?thesis
  proof (cases r1)
    case Throws
    with assms i have "res = Throws" "w' = w1"
      by (simp_all add: launchBotForTask_def)
    with es1 show ?thesis by (simp add: proj_simps)
  next
    case (Returns s)
    show ?thesis
    proof (cases s)
      case None
      with Returns assms i have "res = Returns LAUNCH_ERROR"
        "w' = emit [TaskReturned acc t LAUNCH_ERROR] w1"
        by (simp_all add: launchBotForTask_def)
      with es1 show ?thesis by (simp add: proj_simps emit_def)
    next
      case (Some sb)
      obtain r2 b2 as where run: "runCommentTask sb (task_at e (clock w1)) t h = (r2, b2, as)"
        by (cases "runCommentTask sb (task_at e (clock w1)) t h") auto
      define w2 where "w2 = emit (map (PageAction (username acc)) as) (tick w1)"
      define result where
        "result = (case r2 of Returns r \<Rightarrow> TaskResult r | Throws \<Rightarrow> TaskResult FAILED)"
      obtain ok w3 where c: "closeBrowser e (username acc) w2 = (ok, w3)"
        by (cases "closeBrowser e (username acc) w2") auto
      from closeBrowser_events [OF c] obtain es3 where
        es3: "events w3 = events w2 @ es3" "sessionsOf es3 = []" "launchesOf es3 = []"
          "returnsOf es3 = []" "csvWritesOf es3 = []" "taskEventsOf es3 = []"
        by blast
      have w2: "events w2 = events w1 @ map (PageAction (username acc)) as"
        by (simp add: w2_def emit_def tick_def)
      have out: "(res, w') = (if ok then (Returns result, emit [TaskReturned acc t result] w3)
                              else (Throws, w3))"
        using assms i Returns Some run c
        by (cases ok) (simp_all add: launchBotForTask_def Let_def w2_def result_def)
      show ?thesis
      proof (cases ok)
        case True
        with out have "res = Returns result" "w' = emit [TaskReturned acc t result] w3"
          by simp_all
        with es1 es3 w2 show ?thesis
          by (simp add: proj_simps proj_PageAction emit_def)
      next
        case False
        with out have "res = Throws" "w' = w3" by simp_all
        with es1 es3 w2 show ?thesis
          by (simp add: proj_simps proj_PageAction)
      qed
    qed
  qed
qed

lemma not_failed_iff:
  "(\<not> (r = TaskResult FAILED \<or> r = LAUNCH_ERROR)) = succeededOrSkipped r"
proof (cases r)
  case (TaskResult x)
  then show ?thesis by (cases x) (simp_all add: succeededOrSkipped_def)
next
  case LAUNCH_ERROR
  then show ?thesis by (simp add: succeededOrSkipped_def)
qed

lemma runTasks_events:
  "runTasks e t accs allOk w = (res, w') \<Longrightarrow>
   \<exists>es. events w' = events w @ es \<and> csvWritesOf es = []
     \<and> set (sessionsOf es) \<subseteq> set accs
     \<and> (case res of
          Returns ok \<Rightarrow>
            launchesOf es = map (\<lambda>a. (a, t)) accs
            \<and> length (returnsOf es) = length accs
            \<and> taskEventsOf es
                = concat (map2 (\<lambda>a r. [LaunchTask a t, TaskReturned a t r]) accs (returnsOf es))
            \<and> ok = (allOk \<and> list_all succeededOrSkipped (returnsOf es))
        | Throws \<Rightarrow>
            length (returnsOf es) < length accs
            \<and> launchesOf es = map (\<lambda>a. (a, t)) (take (Suc (length (returnsOf es))) accs))"
proof (induction accs arbitrary: allOk w)
  case Nil
  then show ?case by (auto simp add: proj_simps)
next
  case (Cons acc rest)
  obtain r1 w1 where l: "launchBotForTask e acc t (aiPromptHint acc) w = (r1, w1)"
    by (cases "launchBotForTask e acc t (aiPromptHint acc) w") auto
  from launchBotForTask_events [OF l] obtain es1 where
    es1: "events w1 = events w @ es1" "sessionsOf es1 = [acc]" "launchesOf es1 = [(acc, t)]"
      "csvWritesOf es1 = []"
      "returnsOf es1 = (case r1 of Returns r \<Rightarrow> [r] | Throws \<Rightarrow> [])"
      "taskEventsOf es1
         = LaunchTask acc t # (case r1 of Returns r \<Rightarrow> [TaskReturned acc t r] | Throws \<Rightarrow> [])"
    by blast
  show ?case
  proof (cases r1)
    case Throws
    with Cons.prems l have "res = Throws" "w' = w1" by simp_all
    with es1 Throws show ?thesis by (auto simp add: proj_simps)
  next
    case (Returns result)
    define ok1 where "ok1 = (allOk \<and> succeededOrSkipped result)"
    have flag: "(if result = TaskResult FAILED \<or> result = LAUNCH_ERROR then False else allOk) = ok1"
      using not_failed_iff [of result] by (auto simp add: ok1_def)
    from Cons.prems l Returns have rest: "runTasks e t rest ok1 w1 = (res, w')"
      by (simp add: flag)
    from Cons.IH [OF rest] obtain es2 where
      es2: "events w' = events w1 @ es2" "csvWritesOf es2 = []"
        "set (sessionsOf es2) \<subseteq> set rest"
        "case res of
           Returns ok \<Rightarrow>
             launchesOf es2 = map (\<lambda>a. (a, t)) rest
             \<and> length (returnsOf es2) = length rest
             \<and> taskEventsOf es2
                 = concat (map2 (\<lambda>a r. [LaunchTask a t, TaskReturned a t r]) rest (returnsOf es2))
             \<and> ok = (ok1 \<and> list_all succeededOrSkipped (returnsOf es2))
         | Throws \<Rightarrow>
             length (returnsOf es2) < length rest
             \<and> launchesOf es2 = map (\<lambda>a. (a, t)) (take (Suc (length (returnsOf es2))) rest)"
      by blast
    have "events w' = events w @ (es1 @ es2)" using es1 es2 by simp
    moreover have "csvWritesOf (es1 @ es2) = []" using es1 es2 by (simp add: proj_simps)
    moreover have "set (sessionsOf (es1 @ es2)) \<subseteq> set (acc # rest)"
      using es1 es2 by (auto simp add: proj_simps)
    moreover have "case res of
          Returns ok \<Rightarrow>
            launchesOf (es1 @ es2) = map (\<lambda>a. (a, t)) (acc # rest)
            \<and> length (returnsOf (es1 @ es2)) = length (acc # rest)
            \<and> taskEventsOf (es1 @ es2)
                = concat (map2 (\<lambda>a r. [LaunchTask a t, TaskReturned a t r]) (acc # rest)
                    (returnsOf (es1 @ es2)))
            \<and> ok = (allOk \<and> list_all succeededOrSkipped (returnsOf (es1 @ es2)))
        | Throws \<Rightarrow>
            length (returnsOf (es1 @ es2)) < length (acc # rest)
            \<and> launchesOf (es1 @ es2)
                = map (\<lambda>a. (a, t)) (take (Suc (length (returnsOf (es1 @ es2)))) (acc # rest))"
      using es1 es2(4) Returns
      by (cases res) (auto simp add: proj_simps ok1_def)
    ultimately show ?thesis by blast
  qed
qed

section \<open>The accounts of a target\<close>

lemma map_of_rekey:
  "map_of (map (\<lambda>(k, v). if k = t then (k, v @ [acc]) else (k, v)) m) k
     = map_option (\<lambda>v. if k = t then v @ [acc] else v) (map_of m k)"
  by (induction m) auto

lemma tasksOf_addTarget:
  "tasksOf (addTarget acc m t) k = tasksOf m k @ (if k = t then [acc] else [])"
  by (auto simp add: tasksOf_def addTarget_def map_of_rekey map_add_def
      split: option.splits)

lemma keys_addTarget:
  "distinct (map fst m) \<Longrightarrow> distinct (map fst (addTarget acc m t))"
  "set (map fst (addTarget acc m t)) = insert t (set (map fst m))"
proof -
  have same: "map fst (map (\<lambda>(k, v). if k = t then (k, v @ [acc]) else (k, v)) m) = map fst m"
    by (induction m) auto
  have same': "map (fst \<circ> (\<lambda>(k, v). if k = t then (k, v @ [acc]) else (k, v))) m = map fst m"
    using same by simp
  show "distinct (map fst m) \<Longrightarrow> distinct (map fst (addTarget acc m t))"
    by (auto simp add: addTarget_def same' map_of_eq_None_iff split: option.splits)
  show "set (map fst (addTarget acc m t)) = insert t (set (map fst m))"
  proof (cases "map_of m t")
    case None
    then show ?thesis by (simp add: addTarget_def)
  next
    case (Some v)
    then have "t \<in> set (map fst m)"
      by (metis map_of_eq_None_iff option.distinct(1) set_map)
    with Some show ?thesis
      by (simp add: addTarget_def same' insert_absorb del: set_map)
  qed
qed

lemma tasksOf_foldl_addTarget:
  "tasksOf (foldl (addTarget acc) m ts) k = tasksOf m k @ replicate (count_list ts k) acc"
  by (induction ts arbitrary: m) (auto simp add: tasksOf_addTarget replicate_append_same)

lemma keys_foldl_addTarget:
  "distinct (map fst m) \<Longrightarrow> distinct (map fst (foldl (addTarget acc) m ts))"
  by (induction ts arbitrary: m) (simp_all add: keys_addTarget)

lemma tasksOf_foldl_accounts:
  "tasksOf (foldl (\<lambda>m acc. foldl (addTarget acc) m (targets acc)) m accs) k
     = tasksOf m k @ concat (map (\<lambda>a. replicate (count_list (targets a) k) a) accs)"
  by (induction accs arbitrary: m) (simp_all add: tasksOf_foldl_addTarget)

lemma keys_foldl_accounts:
  "distinct (map fst m) \<Longrightarrow>
   distinct (map fst (foldl (\<lambda>m acc. foldl (addTarget acc) m (targets acc)) m accs))"
  by (induction accs arbitrary: m) (simp_all add: keys_foldl_addTarget)

lemma tasksOf_buildTargetMap:
  "tasksOf (buildTargetMap accs) k
     = concat (map (\<lambda>a. replicate (count_list (targets a) k) a) accs)"
  by (simp add: buildTargetMap_def tasksOf_foldl_accounts) (simp add: tasksOf_def)

lemma distinct_buildTargetMap: "distinct (map fst (buildTargetMap accs))"
  by (simp add: buildTargetMap_def keys_foldl_accounts)

lemma tasksOf_subset: "set (tasksOf (buildTargetMap accs) k) \<subseteq> set accs"
  by (auto simp add: tasksOf_buildTargetMap)

section \<open>One target of a monitoring cycle\<close>

lemma commit_events:
  "commit target cur (ps, w) = (ps', w') \<Longrightarrow>
   ps' = ps(target \<mapsto> cur)
   \<and> events w' = events w @ [UpdateCsv target (postCount cur) (followerCount cur)]
   \<and> fingerprintFiles w' = fingerprintFiles w"
  by (auto simp add: commit_def updateProfileStatsInCsv_def emit_def)

lemma compareStats_first_sight:
  "ps target = None \<Longrightarrow> compareStats e tm target cur (ps, w) = (res, (ps', w')) \<Longrightarrow>
   res = Returns () \<and> ps' = ps(target \<mapsto> cur)
   \<and> events w' = events w @ [UpdateCsv target (postCount cur) (followerCount cur)]"
  by (auto simp add: compareStats_def commit_def updateProfileStatsInCsv_def emit_def)

lemma compareStats_no_new_post:
  "ps target = Some prev \<Longrightarrow> \<not> postCount prev < postCount cur \<Longrightarrow>
   compareStats e tm target cur (ps, w) = (res, (ps', w')) \<Longrightarrow>
   res = Returns ()
   \<and> (if postCount cur < postCount prev \<or> followerCount cur \<noteq> followerCount prev
      then ps' = ps(target \<mapsto> cur)
           \<and> events w' = events w @ [UpdateCsv target (postCount cur) (followerCount cur)]
      else ps' = ps \<and> w' = w)"
  by (auto simp add: compareStats_def commit_def updateProfileStatsInCsv_def emit_def
      split: if_splits)

lemma compareStats_new_post:
  assumes prior: "ps target = Some prev" and more: "postCount prev < postCount cur"
    and run: "compareStats e tm target cur (ps, w) = (res, (ps', w'))"
  shows "\<exists>es. events w' = events w @ es
     \<and> set (sessionsOf es) \<subseteq> set (tasksOf tm target)
     \<and> (case res of
          Returns _ \<Rightarrow>
            launchesOf es = map (\<lambda>a. (a, target)) (tasksOf tm target)
            \<and> length (returnsOf es) = length (tasksOf tm target)
            \<and> taskEventsOf es
                = concat (map2 (\<lambda>a r. [LaunchTask a target, TaskReturned a target r])
                    (tasksOf tm target) (returnsOf es))
            \<and> (if list_all succeededOrSkipped (returnsOf es)
               then ps' = ps(target \<mapsto> cur)
                    \<and> csvWritesOf es = [(target, postCount cur, followerCount cur)]
               else ps' = ps \<and> csvWritesOf es = [])
        | Throws \<Rightarrow>
            ps' = ps \<and> csvWritesOf es = []
            \<and> length (returnsOf es) < length (tasksOf tm target)
            \<and> launchesOf es
                = map (\<lambda>a. (a, target)) (take (Suc (length (returnsOf es))) (tasksOf tm target)))"
proof -
  obtain r1 w1 where t: "runTasks e target (tasksOf tm target) True w = (r1, w1)"
    by (cases "runTasks e target (tasksOf tm target) True w") auto
  from runTasks_events [OF t] obtain es where
    es: "events w1 = events w @ es" "csvWritesOf es = []"
      "set (sessionsOf es) \<subseteq> set (tasksOf tm target)"
      "case r1 of
          Returns ok \<Rightarrow>
            launchesOf es = map (\<lambda>a. (a, target)) (tasksOf tm target)
            \<and> length (returnsOf es) = length (tasksOf tm target)
            \<and> taskEventsOf es
                = concat (map2 (\<lambda>a r. [LaunchTask a target, TaskReturned a target r])
                    (tasksOf tm target) (returnsOf es))
            \<and> ok = (True \<and> list_all succeededOrSkipped (returnsOf es))
        | Throws \<Rightarrow>
            length (returnsOf es) < length (tasksOf tm target)
            \<and> launchesOf es
                = map (\<lambda>a. (a, target)) (take (Suc (length (returnsOf es))) (tasksOf tm target))"
    by blast
  show ?thesis
  proof (cases r1)
    case Throws
    with run prior more t have "res = Throws" "ps' = ps" "w' = w1"
      by (simp_all add: compareStats_def)
    with es Throws show ?thesis by auto
  next
    case (Returns ok)
    show ?thesis
    proof (cases ok)
      case True
      with Returns run prior more t have out: "res = Returns ()" "ps' = ps(target \<mapsto> cur)"
        "events w' = events w1 @ [UpdateCsv target (postCount cur) (followerCount cur)]"
        by (auto simp add: compareStats_def commit_def updateProfileStatsInCsv_def emit_def)
      let ?es = "es @ [UpdateCsv target (postCount cur) (followerCount cur)]"
      have "events w' = events w @ ?es" using out es by simp
      moreover have "set (sessionsOf ?es) \<subseteq> set (tasksOf tm target)"
        using es by (simp add: proj_simps)
      moreover have "launchesOf ?es = launchesOf es" "returnsOf ?es = returnsOf es"
        "taskEventsOf ?es = taskEventsOf es"
        "csvWritesOf ?es = [(target, postCount cur, followerCount cur)]"
        using es by (simp_all add: proj_simps)
      ultimately show ?thesis
        using es(4) Returns True out by (intro exI [of _ ?es]) simp
    next
      case False
      with Returns run prior more t have out: "res = Returns ()" "ps' = ps" "w' = w1"
        by (simp_all add: compareStats_def)
      with es Returns False show ?thesis by (intro exI [of _ es]) simp
    qed
  qed
qed

lemma processTarget_unfold:
  "getProfileStats (profile_at e (clock w)) target = (r0, as) \<Longrightarrow>
   processTarget e tm target (ps, w) =
     (case r0 of
        Throws \<Rightarrow> (Throws, (ps, emit (CheckTarget target # map StatsAction as) (tick w)))
      | Returns r \<Rightarrow>
          (case r of
             None \<Rightarrow> (Returns (), (ps, emit (CheckTarget target # map StatsAction as) (tick w)))
           | Some cur \<Rightarrow>
               compareStats e tm target cur
                 (ps, emit (CheckTarget target # map StatsAction as) (tick w))))"
  by (simp add: processTarget_def Let_def)

lemma check_events:
  "events (emit (CheckTarget target # map StatsAction as) (tick w))
     = events w @ CheckTarget target # map StatsAction as"
  "sessionsOf (CheckTarget target # map StatsAction as) = []"
  "launchesOf (CheckTarget target # map StatsAction as) = []"
  "returnsOf (CheckTarget target # map StatsAction as) = []"
  "csvWritesOf (CheckTarget target # map StatsAction as) = []"
  "taskEventsOf (CheckTarget target # map StatsAction as) = []"
  by (simp_all add: emit_def tick_def proj_simps proj_StatsAction)

section \<open>A new post: the fan-out and the commit\<close>

lemmas stats_eval = getProfileStats_def tryStats_def readCounts_def readFollowers_def
  followerFromTitle_def followerFromText_def statsShotThenNull_def statsShotName_def
  pageWith_def gonePage_def truthy_def profileUrl_def

lemmas monitor_eval = processTarget_def compareStats_def commit_def
  updateProfileStatsInCsv_def tasksOf_def buildTargetMap_def addTarget_def
  calmEnv_def secondFails_def goneEnv_def fivePosts_def twoAccounts_def oneAccount_def
  alice_def bob_def carol_def dave_def

lemmas run_eval = monitor_eval stats_eval str_defs num_defs session_eval task_eval
  newEvents_def proj_simps logInteraction_def

lemma page6: "getProfileStats (pageWith ''6 posts'') ''nasa''
    = (Returns (Some \<lparr>postCount = 6, followerCount = 1000\<rparr>), [Goto (profileUrl ''nasa'')])"
  by (simp add: stats_eval str_defs num_defs)











section \<open>First sight, no new post, failed fetch\<close>

text \<open>
  C2. A target of which there are no counts in memory, and a fetch that succeeds with
  any counts whatever: the fetched counts are put in memory for the target and written
  to the CSV file, the iteration ends normally, and no task is launched and no session
  set up.
\<close>

theorem first_sight_sets_baseline:
  "getProfileStats (profile_at e (clock w)) target = (Returns (Some cur), as) \<Longrightarrow>
   ps target = None \<Longrightarrow> processTarget e tm target (ps, w) = (res, (ps', w')) \<Longrightarrow>
     res = Returns () \<and> ps' = ps(target \<mapsto> cur)
     \<and> csvWritesOf (newEvents w w') = [(target, postCount cur, followerCount cur)]
     \<and> launchesOf (newEvents w w') = [] \<and> sessionsOf (newEvents w w') = []"
proof -
  assume fetch: "getProfileStats (profile_at e (clock w)) target = (Returns (Some cur), as)"
    and none: "ps target = None"
    and run: "processTarget e tm target (ps, w) = (res, (ps', w'))"
  define w1 where "w1 = emit (CheckTarget target # map StatsAction as) (tick w)"
  from run fetch have cmp: "compareStats e tm target cur (ps, w1) = (res, (ps', w'))"
    by (simp add: processTarget_unfold w1_def)
  from compareStats_first_sight [OF none cmp]
  have out: "res = Returns ()" "ps' = ps(target \<mapsto> cur)"
    "events w' = events w1 @ [UpdateCsv target (postCount cur) (followerCount cur)]"
    by simp_all
  have "newEvents w w' = (CheckTarget target # map StatsAction as)
      @ [UpdateCsv target (postCount cur) (followerCount cur)]"
    using out(3) by (simp add: newEvents_def w1_def check_events(1))
  then have "csvWritesOf (newEvents w w') = [(target, postCount cur, followerCount cur)]"
    "launchesOf (newEvents w w') = []" "sessionsOf (newEvents w w') = []"
    by (simp_all add: proj_simps proj_StatsAction)
  with out show ?thesis by simp
qed

theorem first_sight_sets_baseline_witness:
  "processTarget calmEnv (buildTargetMap [alice]) ''nasa'' (Map.empty, world0)
     = (Returns (),
        ([''nasa'' \<mapsto> \<lparr>postCount = 6, followerCount = 1000\<rparr>],
         snd (snd (processTarget calmEnv (buildTargetMap [alice]) ''nasa'' (Map.empty, world0)))))
   \<and> launchesOf (newEvents world0
        (snd (snd (processTarget calmEnv (buildTargetMap [alice]) ''nasa'' (Map.empty, world0)))))
       = []
   \<and> csvWritesOf (newEvents world0
        (snd (snd (processTarget calmEnv (buildTargetMap [alice]) ''nasa'' (Map.empty, world0)))))
       = [(''nasa'', 6, 1000)]"
proof -
  define tm where "tm = buildTargetMap [alice]"
  define cur where "cur = \<lparr>postCount = 6, followerCount = 1000\<rparr>"
  define r1 p1 w1 where "r1 = fst (processTarget calmEnv tm ''nasa'' (Map.empty, world0))"
    and "p1 = fst (snd (processTarget calmEnv tm ''nasa'' (Map.empty, world0)))"
    and "w1 = snd (snd (processTarget calmEnv tm ''nasa'' (Map.empty, world0)))"
  have run: "processTarget calmEnv tm ''nasa'' (Map.empty, world0) = (r1, (p1, w1))"
    by (simp add: r1_def p1_def w1_def)
  have fetch: "getProfileStats (profile_at calmEnv (clock world0)) ''nasa''
      = (Returns (Some cur), [Goto (profileUrl ''nasa'')])"
    by (simp add: calmEnv_def steadyEnv_def page6 cur_def)
  have none: "(Map.empty :: string \<rightharpoonup> ProfileStats) ''nasa'' = None" by simp
  note T = first_sight_sets_baseline [OF fetch none run]
  have "processTarget calmEnv tm ''nasa'' (Map.empty, world0)
      = (Returns (), ([''nasa'' \<mapsto> cur], w1))"
    using T run by simp
  moreover have "launchesOf (newEvents world0 w1) = []"
    "csvWritesOf (newEvents world0 w1) = [(''nasa'', 6, 1000)]"
    using T by (simp_all add: cur_def)
  ultimately show ?thesis
    unfolding w1_def tm_def cur_def by simp
qed

text \<open>
  C3. There are counts in memory for the target, and the fetched post count does not
  exceed them. The iteration ends normally and no task is launched and no session set
  up. If the post count went down or the follower count differs, the fetched counts
  are put in memory and written to the CSV file; if both counts are the same, the map in
  memory is unchanged and the world is left as it was after the visit, with no write to
  the CSV file and no fingerprint file touched.
\<close>

theorem no_new_post_no_task:
  "getProfileStats (profile_at e (clock w)) target = (Returns (Some cur), as) \<Longrightarrow>
   ps target = Some prev \<Longrightarrow> \<not> postCount prev < postCount cur \<Longrightarrow>
   processTarget e tm target (ps, w) = (res, (ps', w')) \<Longrightarrow>
     res = Returns ()
     \<and> launchesOf (newEvents w w') = [] \<and> sessionsOf (newEvents w w') = []
     \<and> (postCount cur < postCount prev \<or> followerCount cur \<noteq> followerCount prev \<longrightarrow>
          ps' = ps(target \<mapsto> cur)
          \<and> csvWritesOf (newEvents w w') = [(target, postCount cur, followerCount cur)])
     \<and> (postCount cur = postCount prev \<and> followerCount cur = followerCount prev \<longrightarrow>
          ps' = ps \<and> csvWritesOf (newEvents w w') = []
          \<and> newEvents w w' = CheckTarget target # map StatsAction as
          \<and> fingerprintFiles w' = fingerprintFiles w)"
proof -
  assume fetch: "getProfileStats (profile_at e (clock w)) target = (Returns (Some cur), as)"
    and prior: "ps target = Some prev" and le: "\<not> postCount prev < postCount cur"
    and run: "processTarget e tm target (ps, w) = (res, (ps', w'))"
  define w1 where "w1 = emit (CheckTarget target # map StatsAction as) (tick w)"
  let ?pre = "CheckTarget target # map StatsAction as"
  from run fetch have cmp: "compareStats e tm target cur (ps, w1) = (res, (ps', w'))"
    by (simp add: processTarget_unfold w1_def)
  note C = compareStats_no_new_post [OF prior le cmp]
  have w1: "events w1 = events w @ ?pre" "fingerprintFiles w1 = fingerprintFiles w"
    by (simp_all add: w1_def emit_def tick_def)
  show ?thesis
  proof (cases "postCount cur < postCount prev \<or> followerCount cur \<noteq> followerCount prev")
    case True
    with C have out: "res = Returns ()" "ps' = ps(target \<mapsto> cur)"
      "events w' = events w1 @ [UpdateCsv target (postCount cur) (followerCount cur)]"
      by simp_all
    have "newEvents w w' = ?pre @ [UpdateCsv target (postCount cur) (followerCount cur)]"
      using out(3) w1 by (simp add: newEvents_def)
    then have "csvWritesOf (newEvents w w') = [(target, postCount cur, followerCount cur)]"
      "launchesOf (newEvents w w') = []" "sessionsOf (newEvents w w') = []"
      by (simp_all add: proj_simps proj_StatsAction)
    with out True show ?thesis by auto
  next
    case False
    with C have out: "res = Returns ()" "ps' = ps" "w' = w1"
      by simp_all
    have "newEvents w w' = ?pre"
      using out(3) w1 by (simp add: newEvents_def)
    then have "csvWritesOf (newEvents w w') = []"
      "launchesOf (newEvents w w') = []" "sessionsOf (newEvents w w') = []"
      "newEvents w w' = ?pre"
      by (simp_all add: check_events)
    with out False w1 le show ?thesis by auto
  qed
qed


theorem no_new_post_no_task_witness:
  "fst (processTarget calmEnv (buildTargetMap [alice]) ''nasa'' (sevenPosts, world0)) = Returns ()
   \<and> fst (snd (processTarget calmEnv (buildTargetMap [alice]) ''nasa'' (sevenPosts, world0)))
       = sevenPosts(''nasa'' \<mapsto> \<lparr>postCount = 6, followerCount = 1000\<rparr>)
   \<and> csvWritesOf (newEvents world0
        (snd (snd (processTarget calmEnv (buildTargetMap [alice]) ''nasa'' (sevenPosts, world0)))))
       = [(''nasa'', 6, 1000)]
   \<and> launchesOf (newEvents world0
        (snd (snd (processTarget calmEnv (buildTargetMap [alice]) ''nasa'' (sevenPosts, world0)))))
       = []
   \<and> fst (snd (processTarget calmEnv (buildTargetMap [alice]) ''nasa'' (sixPosts, world0)))
       = sixPosts
   \<and> csvWritesOf (newEvents world0
        (snd (snd (processTarget calmEnv (buildTargetMap [alice]) ''nasa'' (sixPosts, world0)))))
       = []
   \<and> launchesOf (newEvents world0
        (snd (snd (processTarget calmEnv (buildTargetMap [alice]) ''nasa'' (sixPosts, world0)))))
       = []"
proof -
  define tm where "tm = buildTargetMap [alice]"
  define cur where "cur = \<lparr>postCount = 6, followerCount = 1000\<rparr>"
  define prev where "prev = \<lparr>postCount = 7, followerCount = 1000\<rparr>"
  define r1 p1 w1 where "r1 = fst (processTarget calmEnv tm ''nasa'' (sevenPosts, world0))"
    and "p1 = fst (snd (processTarget calmEnv tm ''nasa'' (sevenPosts, world0)))"
    and "w1 = snd (snd (processTarget calmEnv tm ''nasa'' (sevenPosts, world0)))"
  define r2 p2 w2 where "r2 = fst (processTarget calmEnv tm ''nasa'' (sixPosts, world0))"
    and "p2 = fst (snd (processTarget calmEnv tm ''nasa'' (sixPosts, world0)))"
    and "w2 = snd (snd (processTarget calmEnv tm ''nasa'' (sixPosts, world0)))"
  have runs: "processTarget calmEnv tm ''nasa'' (sevenPosts, world0) = (r1, (p1, w1))"
    "processTarget calmEnv tm ''nasa'' (sixPosts, world0) = (r2, (p2, w2))"
    by (simp_all add: r1_def p1_def w1_def r2_def p2_def w2_def)
  have fetch: "getProfileStats (profile_at calmEnv (clock world0)) ''nasa''
      = (Returns (Some cur), [Goto (profileUrl ''nasa'')])"
    by (simp add: calmEnv_def steadyEnv_def page6 cur_def)
  have prior: "sevenPosts ''nasa'' = Some prev" "sixPosts ''nasa'' = Some cur"
    by (simp_all add: sevenPosts_def sixPosts_def prev_def cur_def)
  have le: "\<not> postCount prev < postCount cur" "\<not> postCount cur < postCount cur"
    "postCount cur < postCount prev"
    by (simp_all add: prev_def cur_def)
  note T1 = no_new_post_no_task [OF fetch prior(1) le(1) runs(1)]
  note T2 = no_new_post_no_task [OF fetch prior(2) le(2) runs(2)]
  have a: "r1 = Returns ()" "p1 = sevenPosts(''nasa'' \<mapsto> cur)"
    "csvWritesOf (newEvents world0 w1) = [(''nasa'', 6, 1000)]"
    "launchesOf (newEvents world0 w1) = []"
    using T1 le(3) by (simp_all add: cur_def)
  have b: "p2 = sixPosts" "csvWritesOf (newEvents world0 w2) = []"
    "launchesOf (newEvents world0 w2) = []"
    using T2 by (simp_all add: proj_simps)
  show ?thesis
    using a b unfolding r1_def p1_def w1_def p2_def w2_def tm_def cur_def by simp
qed






section \<open>Sessions are set up for enabled accounts only\<close>

lemma compareStats_sessions:
  assumes "compareStats e tm t cur (ps, w) = (r, (ps', w'))"
  shows "\<exists>es. events w' = events w @ es \<and> set (sessionsOf es) \<subseteq> set (tasksOf tm t)"
proof (cases "ps t")
  case None
  from compareStats_first_sight [OF None assms]
  have "events w' = events w @ [UpdateCsv t (postCount cur) (followerCount cur)]" by simp
  then show ?thesis by (auto simp add: proj_simps)
next
  case (Some prev)
  show ?thesis
  proof (cases "postCount prev < postCount cur")
    case True
    from compareStats_new_post [OF Some True assms] show ?thesis by blast
  next
    case False
    from compareStats_no_new_post [OF Some False assms]
    have "events w' = events w @ [UpdateCsv t (postCount cur) (followerCount cur)]
        \<or> events w' = events w @ []"
      by (auto split: if_splits)
    then show ?thesis by (auto simp add: proj_simps)
  qed
qed

lemma processTarget_sessions:
  assumes "processTarget e tm t (ps, w) = (r, (ps', w'))"
  shows "\<exists>es. events w' = events w @ es \<and> set (sessionsOf es) \<subseteq> set (tasksOf tm t)"
proof -
  obtain r0 as where fetch: "getProfileStats (profile_at e (clock w)) t = (r0, as)"
    by (cases "getProfileStats (profile_at e (clock w)) t") auto
  define pre where "pre = CheckTarget t # map StatsAction as"
  define w1 where "w1 = emit (CheckTarget t # map StatsAction as) (tick w)"
  have pre: "events w1 = events w @ pre" "sessionsOf pre = []"
    by (simp_all add: check_events pre_def w1_def)
  show ?thesis
  proof (cases r0)
    case Throws
    with assms fetch have "w' = w1" by (simp add: processTarget_unfold w1_def)
    with pre show ?thesis by (intro exI [of _ pre]) simp
  next
    case (Returns s)
    show ?thesis
    proof (cases s)
      case None
      with Returns assms fetch have "w' = w1" by (simp add: processTarget_unfold w1_def)
      with pre show ?thesis by (intro exI [of _ pre]) simp
    next
      case (Some cur)
      with Returns assms fetch have "compareStats e tm t cur (ps, w1) = (r, (ps', w'))"
        by (simp add: processTarget_unfold w1_def)
      from compareStats_sessions [OF this] obtain es where
        "events w' = events w1 @ es" "set (sessionsOf es) \<subseteq> set (tasksOf tm t)"
        by blast
      with pre show ?thesis
        by (intro exI [of _ "pre @ es"]) (simp add: proj_append)
    qed
  qed
qed

lemma runTargets_sessions:
  "runTargets e tm ts (ps, w) = (r, (ps', w')) \<Longrightarrow> (\<And>t. set (tasksOf tm t) \<subseteq> A) \<Longrightarrow>
   \<exists>es. events w' = events w @ es \<and> set (sessionsOf es) \<subseteq> A"
proof (induction ts arbitrary: ps w)
  case Nil
  then show ?case by (auto simp add: proj_simps)
next
  case (Cons t ts)
  obtain r1 ps1 w1 where p: "processTarget e tm t (ps, w) = (r1, (ps1, w1))"
    by (cases "processTarget e tm t (ps, w)") auto
  from processTarget_sessions [OF p] Cons.prems(2) obtain es1 where
    es1: "events w1 = events w @ es1" "set (sessionsOf es1) \<subseteq> A"
    by blast
  show ?case
  proof (cases r1)
    case Throws
    with Cons.prems(1) p have "w' = w1" by simp
    with es1 show ?thesis by blast
  next
    case (Returns u)
    with Cons.prems(1) p have "runTargets e tm ts (ps1, w1) = (r, (ps', w'))" by simp
    from Cons.IH [OF this Cons.prems(2)] obtain es2 where
      "events w' = events w1 @ es2" "set (sessionsOf es2) \<subseteq> A"
      by blast
    with es1 show ?thesis
      by (intro exI [of _ "es1 @ es2"]) (simp add: proj_append)
  qed
qed

lemma runCycles_sessions:
  "runCycles e tm n (ps, w) = (r, (ps', w')) \<Longrightarrow> (\<And>t. set (tasksOf tm t) \<subseteq> A) \<Longrightarrow>
   \<exists>es. events w' = events w @ es \<and> set (sessionsOf es) \<subseteq> A"
proof (induction n arbitrary: ps w)
  case 0
  then show ?case by (auto simp add: proj_simps)
next
  case (Suc n)
  obtain r1 ps1 w1 where p: "runTargets e tm (map fst tm) (ps, w) = (r1, (ps1, w1))"
    by (cases "runTargets e tm (map fst tm) (ps, w)") auto
  from runTargets_sessions [OF p Suc.prems(2)] obtain es1 where
    es1: "events w1 = events w @ es1" "set (sessionsOf es1) \<subseteq> A"
    by blast
  show ?case
  proof (cases r1)
    case Throws
    with Suc.prems(1) p have "w' = w1" by simp
    with es1 show ?thesis by blast
  next
    case (Returns u)
    with Suc.prems(1) p have "runCycles e tm n (ps1, w1) = (r, (ps', w'))" by simp
    from Suc.IH [OF this Suc.prems(2)] obtain es2 where
      "events w' = events w1 @ es2" "set (sessionsOf es2) \<subseteq> A"
      by blast
    with es1 show ?thesis
      by (intro exI [of _ "es1 @ es2"]) (simp add: proj_append)
  qed
qed

lemma runMonitorMode_sessions:
  assumes "runMonitorMode n cfg stored e w = (fin, (ps', w'))"
  shows "\<exists>es. events w' = events w @ es
     \<and> set (sessionsOf es) \<subseteq> set (filter enabled (accounts cfg))
     \<and> (sessionsOf es \<noteq> [] \<longrightarrow> hd (sessionsOf es) = hd (filter enabled (accounts cfg)))"
proof (cases "filter enabled (accounts cfg)")
  case Nil
  with assms have "w' = w" by (simp add: runMonitorMode_def)
  then show ?thesis by (intro exI [of _ "[]"]) (simp add: proj_simps)
next
  case (Cons m others)
  define tm where "tm = buildTargetMap (m # others)"
  have sub: "\<And>t. set (tasksOf tm t) \<subseteq> set (m # others)"
    unfolding tm_def by (rule tasksOf_subset)
  show ?thesis
  proof (cases "tm = []")
    case True
    with assms Cons have "w' = w" by (simp add: runMonitorMode_def tm_def)
    then show ?thesis by (intro exI [of _ "[]"]) (simp add: proj_simps)
  next
    case False
    obtain r1 w1 where i: "initializeBotSession e m w = (r1, w1)"
      by (cases "initializeBotSession e m w") auto
    from initializeBotSession_events [OF i] obtain es1 where
      es1: "events w1 = events w @ es1" "sessionsOf es1 = [m]"
      by blast
    have first: "\<And>es. hd (sessionsOf (es1 @ es)) = m" "\<And>es. sessionsOf (es1 @ es) \<noteq> []"
      using es1 by (simp_all add: proj_append)
    show ?thesis
    proof (cases r1)
      case Throws
      with assms Cons False i have "w' = w1" by (simp add: runMonitorMode_def tm_def)
      with es1 Cons show ?thesis by (intro exI [of _ es1]) simp
    next
      case (Returns s)
      show ?thesis
      proof (cases s)
        case None
        with Returns assms Cons False i have "w' = w1" by (simp add: runMonitorMode_def tm_def)
        with es1 Cons show ?thesis by (intro exI [of _ es1]) simp
      next
        case (Some sb)
        obtain r2 ps2 w2 where c: "runCycles e tm n (stored, w1) = (r2, (ps2, w2))"
          by (cases "runCycles e tm n (stored, w1)") auto
        from runCycles_sessions [OF c sub] obtain es2 where
          es2: "events w2 = events w1 @ es2" "set (sessionsOf es2) \<subseteq> set (m # others)"
          by blast
        show ?thesis
        proof (cases r2)
          case Throws
          obtain ok w3 where cl: "closeBrowser e (username m) w2 = (ok, w3)"
            by (cases "closeBrowser e (username m) w2") auto
          from closeBrowser_events [OF cl] obtain es3 where
            es3: "events w3 = events w2 @ es3" "sessionsOf es3 = []"
            by blast
          from Throws Returns Some assms Cons False i c cl have "w' = w3"
            by (simp add: runMonitorMode_def tm_def)
          with es1 es2 es3 Cons first [of "es2 @ es3"] show ?thesis
            by (intro exI [of _ "es1 @ es2 @ es3"]) (simp add: proj_append)
        next
          case (Returns u)
          with \<open>r1 = Returns s\<close> Some assms Cons False i c have "w' = w2"
            by (simp add: runMonitorMode_def tm_def)
          with es1 es2 Cons first [of es2] show ?thesis
            by (intro exI [of _ "es1 @ es2"]) (simp add: proj_append)
        qed
      qed
    qed
  qed
qed

lemma chooseTestAccount_enabled:
  "chooseTestAccount cfg arg = Some acc \<Longrightarrow> enabled acc \<and> acc \<in> set (accounts cfg)"
  by (auto simp add: chooseTestAccount_def find_Some_iff split: if_splits option.splits)

lemma runTestCommentMode_sessions:
  assumes "runTestCommentMode cfg arg e w = (fin, w')"
  shows "\<exists>es. events w' = events w @ es
     \<and> set (sessionsOf es) \<subseteq> set (filter enabled (accounts cfg))"
proof (cases "chooseTestAccount cfg arg")
  case None
  with assms have "w' = w" by (simp add: runTestCommentMode_def)
  then show ?thesis by (intro exI [of _ "[]"]) (simp add: proj_simps)
next
  case (Some acc)
  note en = chooseTestAccount_enabled [OF Some]
  show ?thesis
  proof (cases "targets acc")
    case Nil
    with Some assms have "w' = w" by (simp add: runTestCommentMode_def)
    then show ?thesis by (intro exI [of _ "[]"]) (simp add: proj_simps)
  next
    case (Cons t ts)
    obtain r1 w1 where l: "launchBotForTask e acc t (aiPromptHint acc) w = (r1, w1)"
      by (cases "launchBotForTask e acc t (aiPromptHint acc) w") auto
    from launchBotForTask_events [OF l] obtain es where
      es: "events w1 = events w @ es" "sessionsOf es = [acc]"
      by blast
    from Some Cons assms l have "w' = w1"
      by (cases r1) (simp_all add: runTestCommentMode_def)
    with es en show ?thesis by (intro exI [of _ es]) simp
  qed
qed

lemma checkAccounts_sessions:
  "checkAccounts e accs w = (fin, w') \<Longrightarrow>
   \<exists>es. events w' = events w @ es \<and> set (sessionsOf es) \<subseteq> set accs"
proof (induction accs arbitrary: w)
  case Nil
  then show ?case by (auto simp add: proj_simps)
next
  case (Cons acc rest)
  obtain r1 w1 where i: "initializeBotSession e acc w = (r1, w1)"
    by (cases "initializeBotSession e acc w") auto
  from initializeBotSession_events [OF i] obtain es1 where
    es1: "events w1 = events w @ es1" "sessionsOf es1 = [acc]"
    by blast
  show ?case
  proof (cases r1)
    case Throws
    with Cons.prems i have "w' = w1" by simp
    with es1 show ?thesis by (intro exI [of _ es1]) simp
  next
    case (Returns s)
    show ?thesis
    proof (cases s)
      case None
      with Returns Cons.prems i have "checkAccounts e rest w1 = (fin, w')" by simp
      from Cons.IH [OF this] obtain es2 where
        "events w' = events w1 @ es2" "set (sessionsOf es2) \<subseteq> set rest"
        by blast
      with es1 show ?thesis
        by (intro exI [of _ "es1 @ es2"]) (auto simp add: proj_append)
    next
      case (Some sb)
      let ?w2 = "emit [WaitForEnter (username acc)] w1"
      obtain ok w3 where cl: "closeBrowser e (username acc) ?w2 = (ok, w3)"
        by (cases "closeBrowser e (username acc) ?w2") auto
      from closeBrowser_events [OF cl] obtain es3 where
        es3: "events w3 = events ?w2 @ es3" "sessionsOf es3 = []"
        by blast
      define mid where "mid = es1 @ WaitForEnter (username acc) # es3"
      have w3: "events w3 = events w @ mid" "sessionsOf mid = [acc]"
        using es1 es3 by (simp_all add: emit_def proj_simps mid_def)
      show ?thesis
      proof (cases ok)
        case False
        with Some Returns Cons.prems i cl have "w' = w3" by simp
        with w3 show ?thesis
          by (intro exI [of _ mid]) simp
      next
        case True
        with Some Returns Cons.prems i cl have "checkAccounts e rest w3 = (fin, w')" by simp
        from Cons.IH [OF this] obtain es2 where
          es2: "events w' = events w3 @ es2" "set (sessionsOf es2) \<subseteq> set rest"
          by blast
        with w3 show ?thesis
          by (intro exI [of _ "mid @ es2"]) (auto simp add: proj_append)
      qed
    qed
  qed
qed


lemma enabled_of_subset:
  "set xs \<subseteq> set (filter enabled accs) \<Longrightarrow> list_all enabled xs"
  by (auto simp add: list_all_iff)

text \<open>
  C9. In each of the three modes, every account for which a browser session is set up
  has its \<open>enabled\<close> flag set: in monitor mode (for any number of cycles), where the
  first session is that of the first enabled account, the monitoring account; in
  test-comment mode, where a request that names a disabled account ends at once with
  the world untouched; in check-accounts mode; and so in the program as a whole,
  whatever its arguments.
\<close>

theorem sessions_only_for_enabled_accounts:
  "(runMonitorMode n cfg stored e w = (f1, (ps1, w1)) \<longrightarrow>
      list_all enabled (sessionsOf (newEvents w w1))
      \<and> (sessionsOf (newEvents w w1) \<noteq> [] \<longrightarrow>
           hd (sessionsOf (newEvents w w1)) = hd (filter enabled (accounts cfg))))
   \<and> (runTestCommentMode cfg arg e w = (f2, w2) \<longrightarrow>
      list_all enabled (sessionsOf (newEvents w w2)))
   \<and> (truthy arg \<and> find (\<lambda>a. username a = the arg) (accounts cfg) = Some acc \<and> \<not> enabled acc
      \<longrightarrow> runTestCommentMode cfg arg e w = (Exited, w))
   \<and> (runCheckAccountsMode cfg e w = (f3, w3) \<longrightarrow>
      list_all enabled (sessionsOf (newEvents w w3)))
   \<and> (main n cfg args stored e w = (f4, w4) \<longrightarrow>
      list_all enabled (sessionsOf (newEvents w w4)))"
proof -
  have monitorH: "\<And>f ps' w'. runMonitorMode n cfg stored e w = (f, (ps', w')) \<Longrightarrow>
      list_all enabled (sessionsOf (newEvents w w'))
      \<and> (sessionsOf (newEvents w w') \<noteq> [] \<longrightarrow>
           hd (sessionsOf (newEvents w w')) = hd (filter enabled (accounts cfg)))"
  proof -
    fix f ps' w'
    assume "runMonitorMode n cfg stored e w = (f, (ps', w'))"
    from runMonitorMode_sessions [OF this] obtain es where
      es: "events w' = events w @ es"
        "set (sessionsOf es) \<subseteq> set (filter enabled (accounts cfg))"
        "sessionsOf es \<noteq> [] \<longrightarrow> hd (sessionsOf es) = hd (filter enabled (accounts cfg))"
      by blast
    from es(1) have "newEvents w w' = es" by (rule newEvents_append)
    with es(2,3) enabled_of_subset [OF es(2)]
    show "list_all enabled (sessionsOf (newEvents w w'))
      \<and> (sessionsOf (newEvents w w') \<noteq> [] \<longrightarrow>
           hd (sessionsOf (newEvents w w')) = hd (filter enabled (accounts cfg)))"
      by simp
  qed
  have testH: "\<And>f w'. runTestCommentMode cfg arg e w = (f, w') \<Longrightarrow>
      list_all enabled (sessionsOf (newEvents w w'))" for arg
  proof -
    fix f w'
    assume "runTestCommentMode cfg arg e w = (f, w')"
    from runTestCommentMode_sessions [OF this] obtain es where
      es: "events w' = events w @ es"
        "set (sessionsOf es) \<subseteq> set (filter enabled (accounts cfg))"
      by blast
    from es(1) have "newEvents w w' = es" by (rule newEvents_append)
    with enabled_of_subset [OF es(2)]
    show "list_all enabled (sessionsOf (newEvents w w'))" by simp
  qed
  have reject: "truthy arg \<and> find (\<lambda>a. username a = the arg) (accounts cfg) = Some acc
      \<and> \<not> enabled acc \<longrightarrow> runTestCommentMode cfg arg e w = (Exited, w)"
    by (simp add: runTestCommentMode_def chooseTestAccount_def)
  have checkH: "\<And>f w'. runCheckAccountsMode cfg e w = (f, w') \<Longrightarrow>
      list_all enabled (sessionsOf (newEvents w w'))"
  proof -
    fix f w'
    assume "runCheckAccountsMode cfg e w = (f, w')"
    then have "checkAccounts e (filter enabled (accounts cfg)) w = (f, w')"
      by (simp add: runCheckAccountsMode_def)
    from checkAccounts_sessions [OF this] obtain es where
      es: "events w' = events w @ es"
        "set (sessionsOf es) \<subseteq> set (filter enabled (accounts cfg))"
      by blast
    from es(1) have "newEvents w w' = es" by (rule newEvents_append)
    with enabled_of_subset [OF es(2)]
    show "list_all enabled (sessionsOf (newEvents w w'))" by simp
  qed
  have whole: "main n cfg args stored e w = (f4, w4) \<longrightarrow>
      list_all enabled (sessionsOf (newEvents w w4))"
  proof
    assume m: "main n cfg args stored e w = (f4, w4)"
    consider (nokey) "googleAiApiKey cfg = [] \<or> googleAiApiKey cfg = ''YOUR_GOOGLE_AI_API_KEY_HERE''"
      | (test) "\<not> (googleAiApiKey cfg = [] \<or> googleAiApiKey cfg = ''YOUR_GOOGLE_AI_API_KEY_HERE'')"
          "args \<noteq> [] \<and> hd args = ''test-comment''"
      | (check) "\<not> (googleAiApiKey cfg = [] \<or> googleAiApiKey cfg = ''YOUR_GOOGLE_AI_API_KEY_HERE'')"
          "\<not> (args \<noteq> [] \<and> hd args = ''test-comment'')"
          "args \<noteq> [] \<and> hd args = ''check-accounts''"
      | (monitor) "\<not> (googleAiApiKey cfg = [] \<or> googleAiApiKey cfg = ''YOUR_GOOGLE_AI_API_KEY_HERE'')"
          "\<not> (args \<noteq> [] \<and> hd args = ''test-comment'')"
          "\<not> (args \<noteq> [] \<and> hd args = ''check-accounts'')"
      by blast
    then show "list_all enabled (sessionsOf (newEvents w w4))"
    proof cases
      case nokey
      with m have "w4 = w" by (auto simp add: main_def)
      then show ?thesis by (simp add: newEvents_same proj_simps)
    next
      case test
      with m have "runTestCommentMode cfg
          (if 1 < length args then Some (args ! 1) else None) e w = (f4, w4)"
        by (simp add: main_def)
      then show ?thesis by (rule testH)
    next
      case check
      with m have "runCheckAccountsMode cfg e w = (f4, w4)"
        by (simp add: main_def)
      then show ?thesis by (rule checkH)
    next
      case monitor
      obtain ps' where "runMonitorMode n cfg stored e w = (f4, (ps', w4))"
        using m monitor by (auto simp add: main_def split: prod.splits)
      from monitorH [OF this] show ?thesis by simp
    qed
  qed
  show ?thesis
    using monitorH [of f1 ps1 w1] testH [of arg f2 w2] reject checkH [of f3 w3] whole
    by blast
qed

theorem sessions_only_for_enabled_accounts_witness:
  "sessionsOf (newEvents world0 (snd (snd (runMonitorMode 1 twoAccounts fivePosts calmEnv world0))))
     = [alice, alice, bob]
   \<and> list_all enabled
       (sessionsOf (newEvents world0
          (snd (snd (runMonitorMode 1 twoAccounts fivePosts calmEnv world0)))))
   \<and> runTestCommentMode twoAccounts (Some ''carol'') calmEnv world0 = (Exited, world0)
   \<and> sessionsOf (newEvents world0 (snd (runCheckAccountsMode twoAccounts calmEnv world0)))
     = [alice, bob]
   \<and> list_all enabled
       (sessionsOf (newEvents world0 (snd (runCheckAccountsMode twoAccounts calmEnv world0))))"
proof -
  define f1 p1 w1 where "f1 = fst (runMonitorMode 1 twoAccounts fivePosts calmEnv world0)"
    and "p1 = fst (snd (runMonitorMode 1 twoAccounts fivePosts calmEnv world0))"
    and "w1 = snd (snd (runMonitorMode 1 twoAccounts fivePosts calmEnv world0))"
  define f3 w3 where "f3 = fst (runCheckAccountsMode twoAccounts calmEnv world0)"
    and "w3 = snd (runCheckAccountsMode twoAccounts calmEnv world0)"
  define f2 w2 where "f2 = fst (runTestCommentMode twoAccounts (Some ''carol'') calmEnv world0)"
    and "w2 = snd (runTestCommentMode twoAccounts (Some ''carol'') calmEnv world0)"
  define f4 w4 where "f4 = fst (main 1 twoAccounts [] fivePosts calmEnv world0)"
    and "w4 = snd (main 1 twoAccounts [] fivePosts calmEnv world0)"
  have runs: "runMonitorMode 1 twoAccounts fivePosts calmEnv world0 = (f1, (p1, w1))"
    "runCheckAccountsMode twoAccounts calmEnv world0 = (f3, w3)"
    by (simp_all add: f1_def p1_def w1_def f3_def w3_def)
  have carol: "truthy (Some ''carol'')
      \<and> find (\<lambda>a. username a = the (Some ''carol'')) (accounts twoAccounts) = Some carol
      \<and> \<not> enabled carol"
    by (simp add: truthy_def twoAccounts_def alice_def carol_def bob_def)
  note T = sessions_only_for_enabled_accounts [of 1 twoAccounts fivePosts calmEnv world0
      f1 p1 w1 "Some ''carol''" f2 w2 carol f3 w3 "[]" f4 w4]
  have a: "list_all enabled (sessionsOf (newEvents world0 w1))"
    using T [THEN conjunct1, THEN mp, OF runs(1)] by (rule conjunct1)
  have b: "runTestCommentMode twoAccounts (Some ''carol'') calmEnv world0 = (Exited, world0)"
    using T [THEN conjunct2, THEN conjunct2, THEN conjunct1, THEN mp, OF carol] .
  have c: "list_all enabled (sessionsOf (newEvents world0 w3))"
    using T [THEN conjunct2, THEN conjunct2, THEN conjunct2, THEN conjunct1, THEN mp, OF runs(2)] .
  have d: "sessionsOf (newEvents world0 w1) = [alice, alice, bob]"
    unfolding w1_def by (simp add: run_eval runMonitorMode_def)
  have f: "sessionsOf (newEvents world0 w3) = [alice, bob]"
    unfolding w3_def by (simp add: run_eval runCheckAccountsMode_def)
  show ?thesis
    using a b c d f unfolding w1_def w3_def by (intro conjI)
qed

end
